theory Spec2Isabelle
  imports Main "HOL-Library.Log_Nat"
begin

section \<open>The caffe command line tool (tools/caffe.cpp)\<close>

text \<open>
  A shallow embedding of \<^verbatim>\<open>tools/caffe.cpp\<close>: the command registry and \<^verbatim>\<open>main\<close>,
  the device selector \<^verbatim>\<open>get_gpus\<close>, the \<^verbatim>\<open>train\<close> command, the two evaluation
  loops of \<^verbatim>\<open>test\<close> and the benchmark loop of \<^verbatim>\<open>time\<close>.

  Conventions of the embedding.
  \<^item> glog output is a list of lines, each with its severity. \<^verbatim>\<open>LOG(FATAL)\<close> and a
    failed \<^verbatim>\<open>CHECK\<close> abort the process, and so does the uncaught exception of
    \<^verbatim>\<open>boost::lexical_cast\<close>: they are the \<open>Inl\<close> values of a result.
  \<^item> Calls into the library (the net, the solver, the device layer) are recorded as
    events in the order the code makes them; what they compute is an input of the model.
  \<^item> The preprocessor symbols that select code are the fields of a record.
\<close>

subsection \<open>Logging and fatal termination\<close>

datatype severity = INFO | WARNING | ERROR

datatype error =
    CHECK_failed string      \<comment> \<open>a failed \<^verbatim>\<open>CHECK\<close>, with its message\<close>
  | LOG_FATAL string         \<comment> \<open>\<^verbatim>\<open>LOG(FATAL)\<close>, with its message\<close>
  | bad_lexical_cast         \<comment> \<open>the exception of \<^verbatim>\<open>boost::lexical_cast\<close>, never caught\<close>
  | index_out_of_range       \<comment> \<open>an access of a \<^verbatim>\<open>std::vector\<close> beyond its size\<close>

type_synonym log_line = "severity \<times> string"

subsection \<open>The command registry\<close>

text \<open>
  \<^verbatim>\<open>BrewFunction\<close> is a pointer to one of the six registered functions. \<^verbatim>\<open>g_brew_map\<close>
  is a \<^verbatim>\<open>std::map\<close>, so it is kept in key order, which is the order \<^verbatim>\<open>actions\<close>
  prints it in.
\<close>

datatype BrewFunction =
  fn_actions | fn_autotune | fn_device_query | fn_test | fn_time | fn_train

definition g_brew_map :: "(string \<times> BrewFunction) list" where
  "g_brew_map =
     [(''actions'', fn_actions), (''autotune'', fn_autotune),
      (''device_query'', fn_device_query), (''test'', fn_test),
      (''time'', fn_time), (''train'', fn_train)]"

definition actions :: "int \<times> log_line list" where
  "actions =
     (0, (ERROR, ''Available caffe actions:'')
         # map (\<lambda>(name, f). (ERROR, CHR 0x09 # name)) g_brew_map)"

definition GetBrewFunction :: "string \<Rightarrow> BrewFunction option \<times> log_line list" where
  "GetBrewFunction name =
     (if name \<in> fst ` set g_brew_map then (map_of g_brew_map name, [])
      else (map_of g_brew_map ''actions'', [(ERROR, ''Unknown action: '' @ name)]))"

text \<open>
  Running a registered function. \<^verbatim>\<open>actions\<close> is the function above; what the other
  five do when \<^verbatim>\<open>main\<close> calls them is the parameter \<open>run\<close>: the value they return, or
  the fatal error that ends the process. A null pointer cannot come out of the map,
  its case is there for totality.
\<close>

definition call :: "(BrewFunction \<Rightarrow> error + int) \<Rightarrow> BrewFunction option \<Rightarrow>
    (error + int) \<times> log_line list" where
  "call run f =
     (case f of
        None \<Rightarrow> (Inl (LOG_FATAL ''null BrewFunction''), [])
      | Some fn_actions \<Rightarrow> (Inr (fst actions), snd actions)
      | Some g \<Rightarrow> (run g, []))"

text \<open>
  \<^verbatim>\<open>main\<close>, after \<^verbatim>\<open>GlobalInit\<close> has taken the flags out of \<open>argv\<close>. The result is the
  exit status of the process (or the fatal error) and what was logged.
\<close>

definition main :: "(BrewFunction \<Rightarrow> error + int) \<Rightarrow> string list \<Rightarrow>
    (error + int) \<times> log_line list" where
  "main run argv =
     (if length argv = 2 then
        (let (f, l1) = GetBrewFunction (argv ! 1);
             (r, l2) = call run f
         in (case r of
               Inl e \<Rightarrow> (Inl e, l1 @ l2)
             | Inr status \<Rightarrow> (Inr (if status \<noteq> 0 then 1 else 0), l1 @ l2)))
      else (Inr 0, []))"

definition registered :: "string \<Rightarrow> bool" where
  "registered name = (name \<in> fst ` set g_brew_map)"

subsection \<open>Strings: splitting and conversions\<close>

text \<open>
  \<^verbatim>\<open>boost::split(out, s, boost::is_any_of(","))\<close> with the default
  \<^verbatim>\<open>token_compress_off\<close>: every separator ends a token, so empty tokens are kept and
  the empty string gives one empty token.
\<close>

fun boost_split :: "char \<Rightarrow> string \<Rightarrow> string list" where
  "boost_split sep [] = [[]]"
| "boost_split sep (c # cs) =
     (if c = sep then [] # boost_split sep cs
      else (case boost_split sep cs of
              [] \<Rightarrow> [[c]]
            | t # ts \<Rightarrow> (c # t) # ts))"

definition digit_value :: "char \<Rightarrow> nat option" where
  "digit_value =
     map_of [(CHR ''0'', 0), (CHR ''1'', 1), (CHR ''2'', 2), (CHR ''3'', 3), (CHR ''4'', 4),
             (CHR ''5'', 5), (CHR ''6'', 6), (CHR ''7'', 7), (CHR ''8'', 8), (CHR ''9'', 9)]"

fun decimal_value :: "nat \<Rightarrow> string \<Rightarrow> nat option" where
  "decimal_value acc [] = Some acc"
| "decimal_value acc (c # cs) =
     (case digit_value c of
        None \<Rightarrow> None
      | Some d \<Rightarrow> decimal_value (10 * acc + d) cs)"

text \<open>
  \<^verbatim>\<open>boost::lexical_cast<int>\<close> is Boost's, not this repository's. As Boost documents
  it: the whole token must be an optional sign followed by at least one decimal
  digit, with no blank anywhere, and the value must fit a 32-bit \<^verbatim>\<open>int\<close>; otherwise it
  throws \<^verbatim>\<open>bad_lexical_cast\<close>, here \<open>None\<close>.
\<close>

definition lexical_cast_int :: "string \<Rightarrow> int option" where
  "lexical_cast_int s =
     (let (neg, ds) =
            (case s of
               [] \<Rightarrow> (False, [])
             | c # r \<Rightarrow> if c = CHR ''-'' then (True, r)
                        else if c = CHR ''+'' then (False, r) else (False, s))
      in if ds = [] then None
         else (case decimal_value 0 ds of
                 None \<Rightarrow> None
               | Some n \<Rightarrow>
                   (let v = (if neg then - int n else int n)
                    in if - (2 ^ 31) \<le> v \<and> v \<le> 2 ^ 31 - 1 then Some v else None)))"

text \<open>\<^verbatim>\<open>boost::lexical_cast<string>\<close> of an \<^verbatim>\<open>int\<close>, and streaming an \<^verbatim>\<open>int\<close>: decimal digits.\<close>

definition digit_char :: "nat \<Rightarrow> char" where
  "digit_char d = ''0123456789'' ! d"

fun string_of_nat :: "nat \<Rightarrow> string" where
  "string_of_nat n =
     (if n < 10 then [digit_char n]
      else string_of_nat (n div 10) @ [digit_char (n mod 10)])"

declare string_of_nat.simps [simp del]

definition string_of_int :: "int \<Rightarrow> string" where
  "string_of_int i = (if i < 0 then CHR ''-'' # string_of_nat (nat (- i)) else string_of_nat (nat i))"

fun join :: "string \<Rightarrow> string list \<Rightarrow> string" where
  "join sep [] = []"
| "join sep [t] = t"
| "join sep (t # u # ts) = t @ sep @ join sep (u # ts)"

subsection \<open>The flags and the build\<close>

record flags =
  FLAGS_gpu :: string
  FLAGS_solver :: string
  FLAGS_model :: string
  FLAGS_phase :: string
  FLAGS_level :: int
  FLAGS_stage :: string
  FLAGS_snapshot :: string
  FLAGS_weights :: string
  FLAGS_iterations :: int
  FLAGS_sigint_effect :: string
  FLAGS_sighup_effect :: string
  FLAGS_lt :: bool
  FLAGS_detection :: bool
  FLAGS_ap :: string

text \<open>The values the \<^verbatim>\<open>DEFINE_\<close> lines give the flags.\<close>

definition default_flags :: flags where
  "default_flags =
     \<lparr>FLAGS_gpu = [], FLAGS_solver = [], FLAGS_model = [], FLAGS_phase = [],
      FLAGS_level = 0, FLAGS_stage = [], FLAGS_snapshot = [], FLAGS_weights = [],
      FLAGS_iterations = 50, FLAGS_sigint_effect = ''stop'',
      FLAGS_sighup_effect = ''snapshot'', FLAGS_lt = False, FLAGS_detection = False,
      FLAGS_ap = ''11point''\<rparr>"

text \<open>The preprocessor symbols the code is compiled under.\<close>

record build =
  CPU_ONLY :: bool
  USE_CUDA :: bool
  USE_NCCL :: bool
  USE_GREENTEA :: bool

subsection \<open>The device selector\<close>

fun push_back_ids :: "string list \<Rightarrow> int list \<Rightarrow> error + int list" where
  "push_back_ids [] gpus = Inr gpus"
| "push_back_ids (s # strings) gpus =
     (case lexical_cast_int s of
        None \<Rightarrow> Inl bad_lexical_cast
      | Some v \<Rightarrow> push_back_ids strings (gpus @ [v]))"

text \<open>
  \<^verbatim>\<open>get_gpus\<close>. \<open>count\<close> is what \<^verbatim>\<open>Caffe::EnumerateDevices(true)\<close> returns; \<open>gpus\<close> is
  the vector the caller passes in, and the result is the vector afterwards. In a
  CPU-only build \<^verbatim>\<open>NO_GPU\<close> is a \<^verbatim>\<open>LOG(FATAL)\<close>.
\<close>

definition get_gpus :: "build \<Rightarrow> int \<Rightarrow> string \<Rightarrow> int list \<Rightarrow> error + int list" where
  "get_gpus b count gpu gpus =
     (if gpu = ''all'' then
        (if CPU_ONLY b then Inl (LOG_FATAL ''Cannot use GPU in CPU-only Caffe: check mode.'')
         else Inr (gpus @ [0 ..count - 1]))
      else if gpu \<noteq> [] then push_back_ids (boost_split CHR '','' gpu) gpus
      else if length gpus = 0 then Inr gpus
      else Inl (CHECK_failed ''gpus->size() == 0''))"

definition get_stages_from_flags :: "flags \<Rightarrow> string list" where
  "get_stages_from_flags f = boost_split CHR '','' (FLAGS_stage f)"

subsection \<open>The train command\<close>

datatype SolverAction = STOP | SNAPSHOT | NONE

definition GetRequestedAction :: "string \<Rightarrow> error + SolverAction" where
  "GetRequestedAction flag_value =
     (if flag_value = ''stop'' then Inr STOP
      else if flag_value = ''snapshot'' then Inr SNAPSHOT
      else if flag_value = ''none'' then Inr NONE
      else Inl (LOG_FATAL (''Invalid signal effect '' @ [CHR 0x22] @ flag_value @ [CHR 0x22]
                           @ '' was specified'')))"

datatype SolverMode = CPU | GPU

text \<open>The fields of \<^verbatim>\<open>caffe::SolverParameter\<close> that \<^verbatim>\<open>train\<close> reads or writes.\<close>

record SolverParameter =
  solver_mode :: "SolverMode option"
  device_id :: "int option"
  train_state_level :: int
  train_state_stage :: "string list"

text \<open>
  What \<^verbatim>\<open>train\<close> takes from outside the file: the solver definition that
  \<^verbatim>\<open>ReadSolverParamsFromTextFileOrDie\<close> reads (\<open>None\<close> when it dies), the number of
  devices \<^verbatim>\<open>EnumerateDevices\<close> finds, the number of test nets of the solver and
  whether the default device is an OpenCL one.
\<close>

record world =
  solver_file :: "SolverParameter option"
  device_count :: int
  test_nets_size :: nat
  backend_OpenCL :: bool

text \<open>The calls \<^verbatim>\<open>train\<close> makes, in the order it makes them, and its log lines.\<close>

datatype event =
    Log severity string
  | SetDevices "int list"
  | SetDevice int
  | set_mode SolverMode
  | set_solver_count nat
  | SignalHandler SolverAction SolverAction
  | CreateSolver SolverParameter
  | SetActionFunction
  | Restore string
  | net_CopyTrainedLayersFrom string
  | test_net_CopyTrainedLayersFrom nat string
  | NCCL_Run "int list" "string option"
  | Solve
  | TeardownDevice int

definition CopyLayers :: "nat \<Rightarrow> string \<Rightarrow> event list" where
  "CopyLayers n_test_nets model_list =
     concat (map (\<lambda>name.
         [Log INFO (''Finetuning from '' @ name), net_CopyTrainedLayersFrom name]
         @ map (\<lambda>j. test_net_CopyTrainedLayersFrom j name) [0..<n_test_nets])
       (boost_split CHR '','' model_list))"

text \<open>The last part of \<^verbatim>\<open>train\<close>: from \<^verbatim>\<open>Starting Optimization\<close> to the return.\<close>

definition optimize :: "build \<Rightarrow> world \<Rightarrow> flags \<Rightarrow> int list \<Rightarrow> event list \<times> (error + int)" where
  "optimize b w f gpus =
     (let start = [Log INFO ''Starting Optimization''];
          finish = [Log INFO ''Optimization Done.'']
            @ (if USE_GREENTEA b \<and> backend_OpenCL w \<and> length gpus > 0 \<and> gpus ! 0 \<ge> 0
               then [TeardownDevice (gpus ! 0)] else [])
      in if length gpus > 1 then
           (if USE_CUDA b then
              (if USE_NCCL b then
                 (start @ [NCCL_Run gpus (if length (FLAGS_snapshot f) > 0
                                          then Some (FLAGS_snapshot f) else None)] @ finish,
                  Inr 0)
               else (start,
                     Inl (LOG_FATAL ''Multi-GPU execution not available - rebuild with USE_NCCL'')))
            else (start @ finish, Inr 0))
         else (start @ [Solve] @ finish, Inr 0))"

text \<open>
  The middle part: from the construction of the signal handler to the restore or the
  copy of the weights. Of the two \<^verbatim>\<open>GetRequestedAction\<close> calls, which C++ may evaluate
  in either order, the one for \<^verbatim>\<open>sigint_effect\<close> is taken first.
\<close>

definition construct :: "build \<Rightarrow> world \<Rightarrow> flags \<Rightarrow> SolverParameter \<Rightarrow> int list \<Rightarrow>
    event list \<times> (error + int)" where
  "construct b w f solver_param gpus =
     (case GetRequestedAction (FLAGS_sigint_effect f) of
        Inl e \<Rightarrow> ([], Inl e)
      | Inr a1 \<Rightarrow>
     (case GetRequestedAction (FLAGS_sighup_effect f) of
        Inl e \<Rightarrow> ([], Inl e)
      | Inr a2 \<Rightarrow>
          (let evs = [SignalHandler a1 a2, CreateSolver solver_param, SetActionFunction]
                 @ (if length (FLAGS_snapshot f) \<noteq> 0
                    then [Log INFO (''Resuming from '' @ FLAGS_snapshot f),
                          Restore (FLAGS_snapshot f)]
                    else if length (FLAGS_weights f) \<noteq> 0
                    then CopyLayers (test_nets_size w) (FLAGS_weights f)
                    else []);
               (evs', r) = optimize b w f gpus
           in (evs @ evs', r))))"

text \<open>\<^verbatim>\<open>train\<close>: the events up to the return or the fatal error, and the result.\<close>

definition train :: "build \<Rightarrow> world \<Rightarrow> flags \<Rightarrow> event list \<times> (error + int)" where
  "train b w f =
     (if \<not> length (FLAGS_solver f) > 0 then
        ([], Inl (CHECK_failed ''Need a solver definition to train.''))
      else if \<not> (\<not> length (FLAGS_snapshot f) \<noteq> 0 \<or> \<not> length (FLAGS_weights f) \<noteq> 0) then
        ([], Inl (CHECK_failed
           ''Give a snapshot to resume training or weights to finetune but not both.''))
      else
        (let stages = get_stages_from_flags f
         in case solver_file w of
              None \<Rightarrow> ([], Inl (LOG_FATAL ''ReadSolverParamsFromTextFileOrDie''))
            | Some read \<Rightarrow>
         (let solver_param = read\<lparr>train_state_level := FLAGS_level f,
                                  train_state_stage := train_state_stage read @ stages\<rparr>;
              gpu = (if length (FLAGS_gpu f) = 0 \<and> solver_mode solver_param = Some GPU then
                       (case device_id solver_param of
                          Some d \<Rightarrow> string_of_int d
                        | None \<Rightarrow> string_of_int 0)
                     else FLAGS_gpu f)
          in case get_gpus b (device_count w) gpu [] of
               Inl e \<Rightarrow> ([], Inl e)
             | Inr gpus \<Rightarrow>
          (let (evs, solver_param) =
                 (if length gpus = 0 then
                    ([Log INFO ''Use CPU.'', set_mode CPU], solver_param)
                  else if CPU_ONLY b then ([], solver_param)
                  else
                    ([SetDevices gpus,
                      Log INFO (''Using GPUs '' @ join '', '' (map string_of_int gpus)),
                      SetDevice (gpus ! 0), set_mode GPU, set_solver_count (length gpus)],
                     solver_param\<lparr>device_id := Some (gpus ! 0)\<rparr>));
               (evs', r) = construct b w f solver_param gpus
           in (evs @ evs', r)))))"

subsection \<open>Floating point\<close>

text \<open>
  A \<^verbatim>\<open>float\<close> is an IEEE 754 binary32 number and a \<^verbatim>\<open>double\<close> a binary64 number. The
  model has their finite values, each as the rational number it stands for, and the
  arithmetic of the default rounding mode: the exact result, rounded to the nearest
  value of the format, a tie going to the value with the even significand. A format
  is its precision \<open>p\<close> (24 and 53 bits) and the exponent \<open>emin\<close> of its smallest normal
  number (\<open>-126\<close> and \<open>-1022\<close>), below which the spacing stays that of the subnormal
  numbers. Infinities, NaN and the sign of zero are not in the model: it is exact as
  long as no result exceeds the largest finite value and no divisor is zero.
\<close>

type_synonym float = rat
type_synonym double = rat

text \<open>For \<open>x > 0\<close>, \<open>binade x\<close> is the exponent \<open>e\<close> with \<open>2 powi e \<le> x < 2 powi (e + 1)\<close>.\<close>

definition binade :: "rat \<Rightarrow> int" where
  "binade x =
     (let (a, b) = quotient_of x;
          k = bitlen a - bitlen b
      in if 2 powi k \<le> x then k else k - 1)"

definition round_half_even :: "rat \<Rightarrow> int" where
  "round_half_even q =
     (let f = \<lfloor>q\<rfloor>; d = q - of_int f
      in if d < 1 / 2 then f
         else if 1 / 2 < d then f + 1
         else if even f then f else f + 1)"

definition fp_round :: "nat \<Rightarrow> int \<Rightarrow> rat \<Rightarrow> rat" where
  "fp_round p emin x =
     (if x = 0 then 0
      else (let e = max (binade \<bar>x\<bar>) emin;
                ulp = 2 powi (e - int p + 1)
            in of_int (round_half_even (x / ulp)) * ulp))"

definition f32_round :: "rat \<Rightarrow> float" where
  "f32_round = fp_round 24 (- 126)"

definition f64_round :: "rat \<Rightarrow> double" where
  "f64_round = fp_round 53 (- 1022)"

definition f32_add :: "float \<Rightarrow> float \<Rightarrow> float" where
  "f32_add x y = f32_round (x + y)"

definition f32_div :: "float \<Rightarrow> float \<Rightarrow> float" where
  "f32_div x y = f32_round (x / y)"

definition f64_add :: "double \<Rightarrow> double \<Rightarrow> double" where
  "f64_add x y = f64_round (x + y)"

definition f64_div :: "double \<Rightarrow> double \<Rightarrow> double" where
  "f64_div x y = f64_round (x / y)"

text \<open>The conversions of an \<^verbatim>\<open>int\<close> and of a \<^verbatim>\<open>size_t\<close> to a floating point operand.\<close>

definition f32_of_int :: "int \<Rightarrow> float" where
  "f32_of_int n = f32_round (of_int n)"

definition f32_of_nat :: "nat \<Rightarrow> float" where
  "f32_of_nat n = f32_round (of_nat n)"

definition f64_of_int :: "int \<Rightarrow> double" where
  "f64_of_int n = f64_round (of_int n)"

text \<open>
  An \<^verbatim>\<open>int\<close> has 32 bits. \<^verbatim>\<open>static_cast<int>\<close> of a \<^verbatim>\<open>float\<close> drops the fraction. When
  the result does not fit an \<^verbatim>\<open>int\<close>, C++ leaves the conversion undefined; the
  conversion instruction of x86-64 then gives the smallest \<^verbatim>\<open>int\<close>, and so does the
  model. The addition of two \<^verbatim>\<open>int\<close>s that overflows is undefined in C++ as well; the
  machine addition wraps around, and \<open>int32\<close> is that wrap-around.
\<close>

definition int32 :: "int \<Rightarrow> int" where
  "int32 x = (x + 2147483648) mod 4294967296 - 2147483648"

definition static_cast_int :: "float \<Rightarrow> int" where
  "static_cast_int x =
     (let t = (if 0 \<le> x then \<lfloor>x\<rfloor> else \<lceil>x\<rceil>)
      in if - 2147483648 \<le> t \<and> t \<le> 2147483647 then t else - 2147483648)"

subsection \<open>Ordered maps\<close>

text \<open>
  A \<^verbatim>\<open>std::map\<close> is a list of its entries in the order of the keys, which is the order
  an iterator visits them in. \<open>map_of\<close> is \<^verbatim>\<open>find\<close> and \<open>length\<close> is \<^verbatim>\<open>size\<close>.
\<close>

type_synonym ('k, 'v) std_map = "('k \<times> 'v) list"

fun assign :: "'k::linorder \<Rightarrow> 'v \<Rightarrow> ('k, 'v) std_map \<Rightarrow> ('k, 'v) std_map" where
  "assign k v [] = [(k, v)]"
| "assign k v ((k', v') # m) =
     (if k = k' then (k, v) # m
      else if k < k' then (k, v) # (k', v') # m
      else (k', v') # assign k v m)"

text \<open>
  \<^verbatim>\<open>m[k]\<close> followed by a change of the entry through the reference it returns:
  \<^verbatim>\<open>operator[]\<close> first adds the entry with the value \<open>d\<close> of the default constructor
  when there is none.
\<close>

definition modify :: "'k::linorder \<Rightarrow> 'v \<Rightarrow> ('v \<Rightarrow> 'v) \<Rightarrow> ('k, 'v) std_map \<Rightarrow> ('k, 'v) std_map" where
  "modify k d change m =
     assign k (change (case map_of m k of None \<Rightarrow> d | Some v \<Rightarrow> v)) m"

subsection \<open>Detection evaluation: the accumulation loop of \<^verbatim>\<open>test_detection\<close>\<close>

text \<open>
  An output blob of the detection evaluation has \<^verbatim>\<open>height()\<close> rows of five numbers;
  \<open>col c\<close> of row \<open>k\<close> is \<^verbatim>\<open>result_vec[k * 5 + c]\<close>. One call of \<^verbatim>\<open>Forward\<close> gives the loss
  and the list of the output blobs. The keys of the outer maps are the indices \<open>j\<close>
  of the output blobs.
\<close>

record row =
  col0 :: float
  col1 :: float
  col2 :: float
  col3 :: float
  col4 :: float

type_synonym detection_blob = "row list"

type_synonym pairs = "(float \<times> int) list"

record accumulator =
  all_true_pos :: "(nat, (int, pairs) std_map) std_map"
  all_false_pos :: "(nat, (int, pairs) std_map) std_map"
  all_num_pos :: "(nat, (int, int) std_map) std_map"

definition empty_accumulator :: accumulator where
  "empty_accumulator = \<lparr>all_true_pos = [], all_false_pos = [], all_num_pos = []\<rparr>"

text \<open>The body of the loop over \<open>k\<close>, for row \<open>k\<close> of output blob \<open>j\<close>.\<close>

definition accumulate_row :: "nat \<Rightarrow> row \<Rightarrow> accumulator \<Rightarrow> accumulator" where
  "accumulate_row j r acc =
     (let item_id = static_cast_int (col0 r);
          label = static_cast_int (col1 r)
      in if item_id = - 1 then
           acc\<lparr>all_num_pos :=
                 modify j []
                   (\<lambda>num_pos. case map_of num_pos label of
                       None \<Rightarrow> assign label (static_cast_int (col2 r)) num_pos
                     | Some n \<Rightarrow>
                         assign label (int32 (n + static_cast_int (col2 r))) num_pos)
                   (all_num_pos acc)\<rparr>
         else
           (let score = col2 r;
                tp = static_cast_int (col3 r);
                fp = static_cast_int (col4 r)
            in if tp = 0 \<and> fp = 0 then acc
               else acc\<lparr>all_true_pos :=
                          modify j [] (modify label [] (\<lambda>v. v @ [(score, tp)]))
                            (all_true_pos acc),
                        all_false_pos :=
                          modify j [] (modify label [] (\<lambda>v. v @ [(score, fp)]))
                            (all_false_pos acc)\<rparr>))"

fun accumulate_blob :: "nat \<Rightarrow> detection_blob \<Rightarrow> accumulator \<Rightarrow> accumulator" where
  "accumulate_blob j [] acc = acc"
| "accumulate_blob j (r # rows) acc = accumulate_blob j rows (accumulate_row j r acc)"

text \<open>The loop over \<open>j\<close>, from blob \<open>j\<close> on.\<close>

fun accumulate_result :: "nat \<Rightarrow> detection_blob list \<Rightarrow> accumulator \<Rightarrow> accumulator" where
  "accumulate_result j [] acc = acc"
| "accumulate_result j (blob # blobs) acc =
     accumulate_result (Suc j) blobs (accumulate_blob j blob acc)"

text \<open>
  The loop over the iterations: \<open>forward i\<close> is what call number \<open>i\<close> of
  \<^verbatim>\<open>caffe_net.Forward\<close> returns, and \<open>n\<close> the number of iterations.
\<close>

definition accumulate_iterations ::
    "(nat \<Rightarrow> float \<times> detection_blob list) \<Rightarrow> nat \<Rightarrow> accumulator" where
  "accumulate_iterations forward n =
     foldl (\<lambda>acc i. accumulate_result 0 (snd (forward i)) acc) empty_accumulator [0..<n]"

subsection \<open>Detection evaluation: the mean average precision\<close>

datatype detection_line =
    Missing_true_pos int               \<comment> \<open>\<^verbatim>\<open>LOG(WARNING) << "Missing true_pos for label: "\<close>\<close>
  | Missing_false_pos int              \<comment> \<open>\<^verbatim>\<open>LOG(WARNING) << "Missing false_pos for label: "\<close>\<close>
  | Test_net_output nat float          \<comment> \<open>\<^verbatim>\<open>LOG(INFO) << "    Test net output #" ... << mAP\<close>\<close>

text \<open>
  \<^verbatim>\<open>caffe::ComputeAP\<close> is outside this file: the parameter \<open>ComputeAP\<close> is the average
  precision it stores for the true positives, the number of positives, the false
  positives and the method name it is given.
\<close>

type_synonym ap_function = "pairs \<Rightarrow> int \<Rightarrow> pairs \<Rightarrow> string \<Rightarrow> float"

text \<open>The loop over the entries of \<^verbatim>\<open>num_pos\<close>, with \<^verbatim>\<open>mAP\<close> and the log as its state.\<close>

fun label_loop :: "ap_function \<Rightarrow> string \<Rightarrow> (int, pairs) std_map \<Rightarrow> (int, pairs) std_map \<Rightarrow>
    (int, int) std_map \<Rightarrow> float \<times> detection_line list \<Rightarrow> float \<times> detection_line list" where
  "label_loop ComputeAP ap true_pos false_pos [] (mAP, lg) = (mAP, lg)"
| "label_loop ComputeAP ap true_pos false_pos ((label, label_num_pos) # rest) (mAP, lg) =
     (case map_of true_pos label of
        None \<Rightarrow>
          label_loop ComputeAP ap true_pos false_pos rest (mAP, lg @ [Missing_true_pos label])
      | Some label_true_pos \<Rightarrow>
     (case map_of false_pos label of
        None \<Rightarrow>
          label_loop ComputeAP ap true_pos false_pos rest (mAP, lg @ [Missing_false_pos label])
      | Some label_false_pos \<Rightarrow>
          label_loop ComputeAP ap true_pos false_pos rest
            (f32_add mAP (ComputeAP label_true_pos label_num_pos label_false_pos ap), lg)))"

text \<open>The body of the loop over the output blobs, from \<^verbatim>\<open>float mAP = 0.\<close> to \<^verbatim>\<open>mAP /= num_pos.size()\<close>.\<close>

definition mean_AP :: "ap_function \<Rightarrow> string \<Rightarrow> (int, pairs) std_map \<Rightarrow> (int, pairs) std_map \<Rightarrow>
    (int, int) std_map \<Rightarrow> float \<times> detection_line list" where
  "mean_AP ComputeAP ap true_pos false_pos num_pos =
     (let (mAP, lg) = label_loop ComputeAP ap true_pos false_pos num_pos (0, [])
      in (f32_div mAP (f32_of_nat (length num_pos)), lg))"

text \<open>
  The loop over the output blobs, from blob \<open>i\<close> on, with \<open>n\<close> the size of
  \<^verbatim>\<open>all_true_pos\<close>: the lines logged and the fatal error that ended the loop, if any.
\<close>

function report_loop :: "ap_function \<Rightarrow> string \<Rightarrow> accumulator \<Rightarrow> nat \<Rightarrow> nat \<Rightarrow>
    detection_line list \<times> error option" where
  "report_loop ComputeAP ap acc n i =
     (if \<not> i < n then ([], None)
      else (case map_of (all_true_pos acc) i of
              None \<Rightarrow> ([], Some (LOG_FATAL (''Missing output_blob true_pos: '' @ string_of_nat i)))
            | Some true_pos \<Rightarrow>
           (case map_of (all_false_pos acc) i of
              None \<Rightarrow> ([], Some (LOG_FATAL (''Missing output_blob false_pos: '' @ string_of_nat i)))
            | Some false_pos \<Rightarrow>
           (case map_of (all_num_pos acc) i of
              None \<Rightarrow> ([], Some (LOG_FATAL (''Missing output_blob num_pos: '' @ string_of_nat i)))
            | Some num_pos \<Rightarrow>
                (let (mAP, lg) = mean_AP ComputeAP ap true_pos false_pos num_pos;
                     (lg', e) = report_loop ComputeAP ap acc n (Suc i)
                 in (lg @ [Test_net_output i mAP] @ lg', e))))))"
  by pat_completeness auto
termination
  by (relation "measure (\<lambda>(ComputeAP, ap, acc, n, i). n - i)") auto

declare report_loop.simps [simp del]

text \<open>\<^verbatim>\<open>test_detection\<close>: what it logs, and its return value or the fatal error.\<close>

definition test_detection :: "ap_function \<Rightarrow> flags \<Rightarrow> (nat \<Rightarrow> float \<times> detection_blob list) \<Rightarrow>
    detection_line list \<times> (error + int)" where
  "test_detection ComputeAP f forward =
     (let acc = accumulate_iterations forward (nat (FLAGS_iterations f));
          (lg, e) = report_loop ComputeAP (FLAGS_ap f) acc (length (all_true_pos acc)) 0
      in (lg, case e of None \<Rightarrow> Inr 0 | Some err \<Rightarrow> Inl err))"

subsection \<open>What the accumulators are to hold\<close>

text \<open>
  The statements about the accumulation loop compare it with the rows of all the
  forward passes, taken in the order the loops meet them, each with the index of its
  output blob.
\<close>

definition rows_of_result :: "nat \<Rightarrow> detection_blob list \<Rightarrow> (nat \<times> row) list" where
  "rows_of_result j blobs = concat (map (\<lambda>(j, blob). map (Pair j) blob) (enumerate j blobs))"

definition encountered :: "(nat \<Rightarrow> float \<times> detection_blob list) \<Rightarrow> nat \<Rightarrow> (nat \<times> row) list" where
  "encountered forward n = concat (map (\<lambda>i. rows_of_result 0 (snd (forward i))) [0..<n])"

definition sentinel :: "row \<Rightarrow> bool" where
  "sentinel r = (static_cast_int (col0 r) = - 1)"

definition both_flags_zero :: "row \<Rightarrow> bool" where
  "both_flags_zero r = (static_cast_int (col3 r) = 0 \<and> static_cast_int (col4 r) = 0)"

text \<open>The sentinel rows of output blob \<open>j\<close> for a label, and its detection rows with a flag set.\<close>

definition sentinel_rows :: "(nat \<times> row) list \<Rightarrow> nat \<Rightarrow> int \<Rightarrow> row list" where
  "sentinel_rows xs j label =
     map snd (filter (\<lambda>(j', r). j' = j \<and> sentinel r \<and> static_cast_int (col1 r) = label) xs)"

definition detection_rows :: "(nat \<times> row) list \<Rightarrow> nat \<Rightarrow> int \<Rightarrow> row list" where
  "detection_rows xs j label =
     map snd (filter (\<lambda>(j', r). j' = j \<and> \<not> sentinel r \<and> static_cast_int (col1 r) = label
                                   \<and> \<not> both_flags_zero r) xs)"

text \<open>\<^verbatim>\<open>m.find(j)\<close> and then \<^verbatim>\<open>find(label)\<close> in the map found.\<close>

definition entry :: "(nat, (int, 'v) std_map) std_map \<Rightarrow> nat \<Rightarrow> int \<Rightarrow> 'v option" where
  "entry m j label = (case map_of m j of None \<Rightarrow> None | Some inner \<Rightarrow> map_of inner label)"

definition pairs_at :: "(nat, (int, pairs) std_map) std_map \<Rightarrow> nat \<Rightarrow> int \<Rightarrow> pairs" where
  "pairs_at m j label = (case entry m j label of None \<Rightarrow> [] | Some v \<Rightarrow> v)"

text \<open>The labels of \<^verbatim>\<open>num_pos\<close> that have both a true positive and a false positive sequence.\<close>

definition has_records :: "(int, pairs) std_map \<Rightarrow> (int, pairs) std_map \<Rightarrow> int \<times> int \<Rightarrow> bool" where
  "has_records true_pos false_pos e =
     (map_of true_pos (fst e) \<noteq> None \<and> map_of false_pos (fst e) \<noteq> None)"

definition label_warning :: "(int, pairs) std_map \<Rightarrow> (int, pairs) std_map \<Rightarrow> int \<times> int \<Rightarrow>
    detection_line list" where
  "label_warning true_pos false_pos e =
     (if map_of true_pos (fst e) = None then [Missing_true_pos (fst e)]
      else if map_of false_pos (fst e) = None then [Missing_false_pos (fst e)]
      else [])"

definition label_AP :: "ap_function \<Rightarrow> string \<Rightarrow> (int, pairs) std_map \<Rightarrow> (int, pairs) std_map \<Rightarrow>
    int \<times> int \<Rightarrow> float" where
  "label_AP ComputeAP ap true_pos false_pos e =
     ComputeAP (the (map_of true_pos (fst e))) (snd e) (the (map_of false_pos (fst e))) ap"

text \<open>The three loops as one loop over the rows with their blob indices.\<close>

definition accumulate_rows :: "(nat \<times> row) list \<Rightarrow> accumulator \<Rightarrow> accumulator" where
  "accumulate_rows xs acc = foldl (\<lambda>acc (j, r). accumulate_row j r acc) acc xs"

text \<open>
  The example of the specification: two iterations, label 5, sentinels with the counts
  3 and 2, detections with the scores 0.9, 0.8 and 0.5 (as binary32 values) and the
  flags (1, 0), (0, 1) and (1, 0), and one detection with both flags zero.
\<close>

definition example_forward :: "nat \<Rightarrow> float \<times> detection_blob list" where
  "example_forward i =
     (if i = 0
      then (0, [[\<lparr>col0 = - 1, col1 = 5, col2 = 3, col3 = - 1, col4 = - 1\<rparr>,
                 \<lparr>col0 = 0, col1 = 5, col2 = 7549747 / 8388608, col3 = 1, col4 = 0\<rparr>,
                 \<lparr>col0 = 0, col1 = 5, col2 = 13421773 / 16777216, col3 = 0, col4 = 1\<rparr>,
                 \<lparr>col0 = 1, col1 = 5, col2 = 1 / 4, col3 = 0, col4 = 0\<rparr>]])
      else (0, [[\<lparr>col0 = - 1, col1 = 5, col2 = 2, col3 = - 1, col4 = - 1\<rparr>,
                 \<lparr>col0 = 2, col1 = 5, col2 = 1 / 2, col3 = 1, col4 = 0\<rparr>]]))"

text \<open>
  The statement about the report loop: the map of output index \<open>i\<close> in one of the three
  tables (empty when there is none), whether \<open>i\<close> has its entry in all three, and the
  lines the loop is to log for \<open>i\<close>.
\<close>

definition table :: "(nat, ('k, 'v) std_map) std_map \<Rightarrow> nat \<Rightarrow> ('k, 'v) std_map" where
  "table m i = (case map_of m i of None \<Rightarrow> [] | Some t \<Rightarrow> t)"

definition complete :: "accumulator \<Rightarrow> nat \<Rightarrow> bool" where
  "complete acc i =
     (map_of (all_true_pos acc) i \<noteq> None \<and> map_of (all_false_pos acc) i \<noteq> None
      \<and> map_of (all_num_pos acc) i \<noteq> None)"

definition output_lines :: "ap_function \<Rightarrow> string \<Rightarrow> accumulator \<Rightarrow> nat \<Rightarrow> detection_line list" where
  "output_lines ComputeAP ap acc i =
     concat (map (label_warning (table (all_true_pos acc) i) (table (all_false_pos acc) i))
               (table (all_num_pos acc) i))
     @ [Test_net_output i
          (f32_div
             (foldl f32_add 0
                (map (label_AP ComputeAP ap (table (all_true_pos acc) i)
                        (table (all_false_pos acc) i))
                   (filter (has_records (table (all_true_pos acc) i)
                              (table (all_false_pos acc) i))
                      (table (all_num_pos acc) i))))
             (f32_of_nat (length (table (all_num_pos acc) i))))]"

text \<open>
  Forward passes for the examples: an output blob with a sentinel row only; one with
  the labels 5 and 7 counted and a detection of label 5 only; one whose counts
  overflow an \<^verbatim>\<open>int\<close> in two iterations.
\<close>

definition sentinel_only_forward :: "nat \<Rightarrow> float \<times> detection_blob list" where
  "sentinel_only_forward i =
     (0, [[\<lparr>col0 = - 1, col1 = 5, col2 = 4, col3 = - 1, col4 = - 1\<rparr>]])"

definition missing_label_forward :: "nat \<Rightarrow> float \<times> detection_blob list" where
  "missing_label_forward i =
     (0, [[\<lparr>col0 = - 1, col1 = 5, col2 = 4, col3 = - 1, col4 = - 1\<rparr>,
           \<lparr>col0 = - 1, col1 = 7, col2 = 2, col3 = - 1, col4 = - 1\<rparr>,
           \<lparr>col0 = 0, col1 = 5, col2 = 1 / 2, col3 = 1, col4 = 0\<rparr>]])"

definition overflow_forward :: "nat \<Rightarrow> float \<times> detection_blob list" where
  "overflow_forward i =
     (0, [[\<lparr>col0 = - 1, col1 = 5, col2 = 2147483520, col3 = - 1, col4 = - 1\<rparr>]])"

subsection \<open>Classification evaluation: the loops of \<^verbatim>\<open>test\<close>\<close>

text \<open>
  An output blob is the list of its \<^verbatim>\<open>count()\<close> numbers. The \<^verbatim>\<open>Batch\<close> lines that the
  loop logs for every number are left out of the model.
\<close>

type_synonym blob = "float list"

record scores =
  test_score_output_id :: "nat list"
  test_score :: "float list"
  loss :: float

definition empty_scores :: scores where
  "empty_scores = \<lparr>test_score_output_id = [], test_score = [], loss = 0\<rparr>"

text \<open>
  The body of the loop over \<open>k\<close>, for a number \<open>score\<close> of blob \<open>j\<close> at the flattened index
  \<open>idx\<close> in iteration \<open>i\<close>. \<^verbatim>\<open>test_score[idx]\<close> is unchecked in C++; the model ends with
  \<open>index_out_of_range\<close> when \<open>idx\<close> is not below the size of the vector.
\<close>

definition add_score :: "nat \<Rightarrow> nat \<Rightarrow> nat \<Rightarrow> float \<Rightarrow> scores \<Rightarrow> error + scores" where
  "add_score i j idx score s =
     (if i = 0 then
        Inr (s\<lparr>test_score := test_score s @ [score],
               test_score_output_id := test_score_output_id s @ [j]\<rparr>)
      else if idx < length (test_score s) then
        Inr (s\<lparr>test_score := (test_score s)[idx := f32_add (test_score s ! idx) score]\<rparr>)
      else Inl index_out_of_range)"

fun blob_loop :: "nat \<Rightarrow> nat \<Rightarrow> blob \<Rightarrow> nat \<Rightarrow> scores \<Rightarrow> error + nat \<times> scores" where
  "blob_loop i j [] idx s = Inr (idx, s)"
| "blob_loop i j (score # rest) idx s =
     (case add_score i j idx score s of
        Inl e \<Rightarrow> Inl e
      | Inr s' \<Rightarrow> blob_loop i j rest (Suc idx) s')"

fun result_loop :: "nat \<Rightarrow> nat \<Rightarrow> blob list \<Rightarrow> nat \<Rightarrow> scores \<Rightarrow> error + nat \<times> scores" where
  "result_loop i j [] idx s = Inr (idx, s)"
| "result_loop i j (b # bs) idx s =
     (case blob_loop i j b idx s of
        Inl e \<Rightarrow> Inl e
      | Inr (idx', s') \<Rightarrow> result_loop i (Suc j) bs idx' s')"

text \<open>Iteration \<open>i\<close>, where \<^verbatim>\<open>Forward\<close> returns the loss and the blobs \<open>forward i\<close>.\<close>

definition iteration :: "(nat \<Rightarrow> float \<times> blob list) \<Rightarrow> nat \<Rightarrow> scores \<Rightarrow> error + scores" where
  "iteration forward i s =
     (case result_loop i 0 (snd (forward i)) 0 (s\<lparr>loss := f32_add (loss s) (fst (forward i))\<rparr>) of
        Inl e \<Rightarrow> Inl e
      | Inr (idx, s') \<Rightarrow> Inr s')"

definition iterations_loop :: "(nat \<Rightarrow> float \<times> blob list) \<Rightarrow> nat \<Rightarrow> error + scores" where
  "iterations_loop forward n =
     foldl (\<lambda>r i. case r of Inl e \<Rightarrow> Inl e | Inr s \<Rightarrow> iteration forward i s)
       (Inr empty_scores) [0..<n]"

text \<open>
  What \<^verbatim>\<open>test\<close> reports after the loop: the \<^verbatim>\<open>Loss\<close> line, and for every number of the
  outputs its blob \<open>j\<close>, its mean and, when the loss weight of the blob is not zero, the
  weight times the mean. \<open>loss_weight j\<close> is \<^verbatim>\<open>blob_loss_weights()\<close> at output blob \<open>j\<close>.
\<close>

record report =
  mean_loss :: float
  mean_scores :: "(nat \<times> float \<times> float option) list"

definition f32_mul :: "float \<Rightarrow> float \<Rightarrow> float" where
  "f32_mul x y = f32_round (x * y)"

definition test_classification ::
    "(nat \<Rightarrow> float) \<Rightarrow> flags \<Rightarrow> (nat \<Rightarrow> float \<times> blob list) \<Rightarrow> error + report" where
  "test_classification loss_weight f forward =
     (case iterations_loop forward (nat (FLAGS_iterations f)) of
        Inl e \<Rightarrow> Inl e
      | Inr s \<Rightarrow>
          Inr \<lparr>mean_loss = f32_div (loss s) (f32_of_int (FLAGS_iterations f)),
               mean_scores =
                 map (\<lambda>(j, sum).
                        (let mean_score = f32_div sum (f32_of_int (FLAGS_iterations f))
                         in (j, mean_score,
                             if loss_weight j \<noteq> 0 then Some (f32_mul (loss_weight j) mean_score)
                             else None)))
                   (zip (test_score_output_id s) (test_score s))\<rparr>)"

text \<open>The number of output numbers of a forward pass.\<close>

definition output_count :: "float \<times> blob list \<Rightarrow> nat" where
  "output_count r = length (concat (snd r))"

text \<open>
  The additions of one later iteration, as a function of the vector: the numbers \<open>xs\<close>
  are added from index \<open>idx\<close> on.
\<close>

fun add_at :: "nat \<Rightarrow> float list \<Rightarrow> float list \<Rightarrow> float list" where
  "add_at idx [] v = v"
| "add_at idx (x # xs) v = add_at (Suc idx) xs (v[idx := f32_add (v ! idx) x])"

text \<open>The forward pass of the example of the specification: loss 1.0, outputs 2.0 and 4.0.\<close>

definition example_net :: "nat \<Rightarrow> float \<times> blob list" where
  "example_net i = (1, [[2, 4]])"

subsection \<open>The benchmark loop of \<^verbatim>\<open>time\<close>\<close>

datatype Phase = TRAIN | TEST

definition get_phase_from_flags :: "flags \<Rightarrow> Phase \<Rightarrow> error + Phase" where
  "get_phase_from_flags f default_value =
     (if FLAGS_phase f = [] then Inr default_value
      else if FLAGS_phase f = ''TRAIN'' then Inr TRAIN
      else if FLAGS_phase f = ''TEST'' then Inr TEST
      else Inl (LOG_FATAL (''phase must be '' @ [CHR 0x22] @ ''TRAIN'' @ [CHR 0x22] @ '' or ''
                           @ [CHR 0x22] @ ''TEST'' @ [CHR 0x22])))"

record timing =
  forward_time_per_layer :: "double list"
  backward_time_per_layer :: "double list"
  forward_time :: double
  backward_time :: double

text \<open>
  What the timers show in one iteration, in microseconds: \<^verbatim>\<open>forward_timer\<close> after the
  forward pass, \<^verbatim>\<open>layer_timers[i]\<close> after the forward pass and after the backward pass.
  \<^verbatim>\<open>MicroSeconds()\<close> returns a \<^verbatim>\<open>float\<close>, which the additions widen to \<^verbatim>\<open>double\<close>
  unchanged.
\<close>

record readings =
  forward_us :: float
  layer_forward_us :: "nat \<Rightarrow> float"
  layer_backward_us :: "nat \<Rightarrow> float"

definition initial_timing :: "nat \<Rightarrow> timing" where
  "initial_timing layers_size =
     \<lparr>forward_time_per_layer = replicate layers_size 0,
      backward_time_per_layer = replicate layers_size 0,
      forward_time = 0, backward_time = 0\<rparr>"

text \<open>The two loops over the layers that add the readings of the layer timers.\<close>

definition add_forward_layers :: "nat \<Rightarrow> readings \<Rightarrow> timing \<Rightarrow> timing" where
  "add_forward_layers layers_size r t =
     foldl (\<lambda>t i. t\<lparr>forward_time_per_layer :=
                (forward_time_per_layer t)
                  [i := f64_add (forward_time_per_layer t ! i) (layer_forward_us r i)]\<rparr>)
       t [0..<layers_size]"

definition add_backward_layers :: "nat \<Rightarrow> readings \<Rightarrow> timing \<Rightarrow> timing" where
  "add_backward_layers layers_size r t =
     foldl (\<lambda>t i.
         (let per_layer = (backward_time_per_layer t)
                [i := f64_add (backward_time_per_layer t ! i) (layer_backward_us r i)]
          in t\<lparr>backward_time_per_layer := per_layer,
                backward_time := f64_add (backward_time t) (per_layer ! i)\<rparr>))
       t [0..<layers_size]"

text \<open>One iteration of the benchmark loop, as far as it changes the four accumulators.\<close>

definition time_iteration :: "bool \<Rightarrow> Phase \<Rightarrow> nat \<Rightarrow> readings \<Rightarrow> timing \<Rightarrow> timing" where
  "time_iteration lt phase layers_size r t =
     (let t1 = t\<lparr>forward_time := f64_add (forward_time t) (forward_us r)\<rparr>;
          t2 = (if lt then add_forward_layers layers_size r t1 else t1)
      in if phase = TRAIN then
           (if lt then add_backward_layers layers_size r t2 else t2)
         else t2)"

definition time_loop :: "bool \<Rightarrow> Phase \<Rightarrow> nat \<Rightarrow> (nat \<Rightarrow> readings) \<Rightarrow> nat \<Rightarrow> timing" where
  "time_loop lt phase layers_size timers n =
     foldl (\<lambda>t j. time_iteration lt phase layers_size (timers j) t)
       (initial_timing layers_size) [0..<n]"

text \<open>
  The lines after the loop: the averages per layer in milliseconds when \<^verbatim>\<open>FLAGS_lt\<close> is
  set, the average forward and backward pass, and the two lines from \<^verbatim>\<open>total_timer\<close>,
  whose \<^verbatim>\<open>MilliSeconds()\<close> is \<open>total_ms\<close>.
\<close>

record time_report =
  average_per_layer :: "(double \<times> double) list option"
  average_forward :: double
  average_backward :: double
  average_forward_backward :: float
  total_time :: float

definition time_benchmark ::
    "flags \<Rightarrow> Phase \<Rightarrow> nat \<Rightarrow> (nat \<Rightarrow> readings) \<Rightarrow> float \<Rightarrow> time_report" where
  "time_benchmark f phase layers_size timers total_ms =
     (let t = time_loop (FLAGS_lt f) phase layers_size timers (nat (FLAGS_iterations f));
          per_iteration = (\<lambda>us. f64_div (f64_div us 1000) (f64_of_int (FLAGS_iterations f)))
      in \<lparr>average_per_layer =
             (if FLAGS_lt f
              then Some (map (\<lambda>i. (per_iteration (forward_time_per_layer t ! i),
                                    per_iteration (backward_time_per_layer t ! i)))
                           [0..<layers_size])
              else None),
           average_forward = per_iteration (forward_time t),
           average_backward = per_iteration (backward_time t),
           average_forward_backward = f32_div total_ms (f32_of_int (FLAGS_iterations f)),
           total_time = total_ms\<rparr>)"

section \<open>Properties of the command registry\<close>

lemma registered_iff:
  "registered name \<longleftrightarrow>
     name \<in> {''actions'', ''autotune'', ''device_query'', ''test'', ''time'', ''train''}"
  by (auto simp: registered_def g_brew_map_def)

lemma GetBrewFunction_unknown:
  "\<not> registered name \<Longrightarrow>
     GetBrewFunction name = (Some fn_actions, [(ERROR, ''Unknown action: '' @ name)])"
  by (simp add: GetBrewFunction_def registered_def g_brew_map_def)

lemma main_unknown_exit:
  "\<not> registered name \<Longrightarrow> fst (main run [prog, name]) = Inr 0"
  by (simp add: main_def GetBrewFunction_unknown call_def actions_def)

lemma main_registered_exit:
  assumes "registered name" and "name \<noteq> ''actions''"
  shows "\<exists>g. map_of g_brew_map name = Some g \<and> g \<noteq> fn_actions \<and>
     fst (main run [prog, name]) =
       (case run g of Inl e \<Rightarrow> Inl e | Inr s \<Rightarrow> Inr (if s \<noteq> 0 then 1 else 0))"
  using assms
  by (auto simp: registered_iff main_def GetBrewFunction_def call_def g_brew_map_def
      split: sum.splits)

text \<open>
  C2. An unknown command name makes the lookup log an error and return \<^verbatim>\<open>actions\<close>;
  \<^verbatim>\<open>actions\<close> returns 0, so \<^verbatim>\<open>main\<close> returns \<^verbatim>\<open>0 != 0\<close>, which is exit status 0:
  the process does not exit with a nonzero status. Evaluated here at the command
  line \<^verbatim>\<open>caffe bogus\<close>.
\<close>

theorem main_unknown_command_exits_zero:
  "main run [''caffe'', ''bogus''] =
     (Inr 0,
      [(ERROR, ''Unknown action: bogus''),
       (ERROR, ''Available caffe actions:''),
       (ERROR, CHR 0x09 # ''actions''), (ERROR, CHR 0x09 # ''autotune''),
       (ERROR, CHR 0x09 # ''device_query''), (ERROR, CHR 0x09 # ''test''),
       (ERROR, CHR 0x09 # ''time''), (ERROR, CHR 0x09 # ''train'')])"
  by (simp add: main_def GetBrewFunction_def call_def actions_def g_brew_map_def)

section \<open>Properties of the device selector\<close>

lemma digit_value_comma: "digit_value CHR '','' = None"
  by (simp add: digit_value_def)

lemma decimal_value_no_comma:
  "decimal_value acc ds = Some n \<Longrightarrow> CHR '','' \<notin> set ds"
  by (induction ds arbitrary: acc) (auto simp: digit_value_comma split: option.splits)

lemma lexical_cast_int_Cons:
  "lexical_cast_int (c # r) = Some v \<Longrightarrow>
     (\<exists>n. if c = CHR ''-'' \<or> c = CHR ''+'' then decimal_value 0 r = Some n
          else decimal_value 0 (c # r) = Some n)"
  unfolding lexical_cast_int_def Let_def
  by (simp split: if_splits option.splits)

lemma lexical_cast_int_empty: "lexical_cast_int [] = None"
  by (simp add: lexical_cast_int_def)

lemma lexical_cast_int_all: "lexical_cast_int ''all'' = None"
  by (simp add: lexical_cast_int_def digit_value_def)

lemma lexical_cast_int_no_comma:
  assumes "lexical_cast_int s = Some v"
  shows "CHR '','' \<notin> set s"
proof (cases s)
  case Nil
  then show ?thesis by simp
next
  case (Cons c r)
  with assms lexical_cast_int_Cons [of c r v] obtain n where
    n: "if c = CHR ''-'' \<or> c = CHR ''+'' then decimal_value 0 r = Some n
          else decimal_value 0 (c # r) = Some n" by blast
  show ?thesis
  proof (cases "c = CHR ''-'' \<or> c = CHR ''+''")
    case True
    with n have "CHR '','' \<notin> set r" using decimal_value_no_comma by simp
    with True Cons show ?thesis by auto
  next
    case False
    with n have "CHR '','' \<notin> set (c # r)"
      using decimal_value_no_comma [of 0 "c # r" n] by simp
    with Cons show ?thesis by simp
  qed
qed

lemma boost_split_no_sep: "sep \<notin> set t \<Longrightarrow> boost_split sep t = [t]"
  by (induction t) auto

lemma boost_split_append:
  "sep \<notin> set t \<Longrightarrow> boost_split sep (t @ sep # rest) = t # boost_split sep rest"
  by (induction t) auto

lemma boost_split_join:
  "tokens \<noteq> [] \<Longrightarrow> \<forall>t\<in>set tokens. sep \<notin> set t \<Longrightarrow>
     boost_split sep (join [sep] tokens) = tokens"
  by (induction "[sep]" tokens rule: join.induct)
     (auto simp: boost_split_no_sep boost_split_append)

lemma push_back_ids_ok:
  "\<forall>t\<in>set tokens. lexical_cast_int t \<noteq> None \<Longrightarrow>
     push_back_ids tokens gpus = Inr (gpus @ map (the \<circ> lexical_cast_int) tokens)"
  by (induction tokens arbitrary: gpus) auto

lemma push_back_ids_bad:
  "\<exists>t\<in>set tokens. lexical_cast_int t = None \<Longrightarrow>
     push_back_ids tokens gpus = Inl bad_lexical_cast"
  by (induction tokens arbitrary: gpus) (auto split: option.splits)

text \<open>A list of well-formed tokens, joined by commas, is neither empty nor \<^verbatim>\<open>all\<close>.\<close>

lemma join_wellformed:
  assumes "tokens \<noteq> []" and "\<forall>t\<in>set tokens. lexical_cast_int t \<noteq> None"
  shows "join '','' tokens \<noteq> [] \<and> join '','' tokens \<noteq> ''all''"
proof (cases tokens)
  case Nil
  with assms show ?thesis by simp
next
  case (Cons t ts)
  show ?thesis
  proof (cases ts)
    case Nil
    from assms \<open>tokens = t # ts\<close> have "lexical_cast_int t \<noteq> None" by simp
    then have "t \<noteq> [] \<and> t \<noteq> ''all''"
      using lexical_cast_int_empty lexical_cast_int_all by metis
    with Nil \<open>tokens = t # ts\<close> show ?thesis by simp
  next
    case (Cons u us)
    have "CHR '','' \<in> set (join '','' (t # u # us))" by simp
    moreover have "CHR '','' \<notin> set ''all''" by simp
    ultimately have "join '','' (t # u # us) \<noteq> ''all''" by metis
    moreover have "join '','' (t # u # us) \<noteq> []" by simp
    ultimately show ?thesis using \<open>tokens = t # ts\<close> Cons by simp
  qed
qed

text \<open>
  C8. A device specifier that is a comma-separated list of well-formed integer tokens
  (tokens that \<^verbatim>\<open>lexical_cast<int>\<close> accepts) resolves to the vector the caller passed
  in followed by the value of each token: one entry per token, in the order of the
  tokens, equal tokens giving equal entries, nothing removed. A specifier other than
  the empty one and \<^verbatim>\<open>all\<close> with a token that \<^verbatim>\<open>lexical_cast<int>\<close> rejects ends the
  process with \<^verbatim>\<open>bad_lexical_cast\<close>.
\<close>

theorem get_gpus_list:
  "(tokens \<noteq> [] \<and> (\<forall>t\<in>set tokens. lexical_cast_int t \<noteq> None) \<longrightarrow>
      get_gpus b count (join '','' tokens) gpus
        = Inr (gpus @ map (the \<circ> lexical_cast_int) tokens))
   \<and> (gpu \<noteq> [] \<and> gpu \<noteq> ''all'' \<and>
        (\<exists>t\<in>set (boost_split CHR '','' gpu). lexical_cast_int t = None) \<longrightarrow>
      get_gpus b count gpu gpus = Inl bad_lexical_cast)"
proof (intro conjI impI)
  assume a: "tokens \<noteq> [] \<and> (\<forall>t\<in>set tokens. lexical_cast_int t \<noteq> None)"
  then have nc: "\<forall>t\<in>set tokens. CHR '','' \<notin> set t"
    using lexical_cast_int_no_comma by fastforce
  from a have sp: "boost_split CHR '','' (join '','' tokens) = tokens"
    using boost_split_join [of tokens "CHR '',''"] nc by simp
  from a join_wellformed [of tokens] sp push_back_ids_ok [of tokens gpus]
  show "get_gpus b count (join '','' tokens) gpus
        = Inr (gpus @ map (the \<circ> lexical_cast_int) tokens)"
    by (simp add: get_gpus_def)
next
  assume "gpu \<noteq> [] \<and> gpu \<noteq> ''all'' \<and>
        (\<exists>t\<in>set (boost_split CHR '','' gpu). lexical_cast_int t = None)"
  then show "get_gpus b count gpu gpus = Inl bad_lexical_cast"
    by (simp add: get_gpus_def push_back_ids_bad)
qed

theorem get_gpus_list_witness:
  "get_gpus \<lparr>CPU_ONLY = False, USE_CUDA = True, USE_NCCL = True, USE_GREENTEA = False\<rparr>
      4 ''2,0,2'' [] = Inr [2, 0, 2]
   \<and> get_gpus \<lparr>CPU_ONLY = False, USE_CUDA = True, USE_NCCL = True, USE_GREENTEA = False\<rparr>
      4 ''1,,x'' [] = Inl bad_lexical_cast"
proof -
  have p: "lexical_cast_int ''2'' = Some 2" "lexical_cast_int ''0'' = Some 0"
    "lexical_cast_int [] = None"
    by (simp_all add: lexical_cast_int_def digit_value_def)
  have s: "boost_split CHR '','' ''1,,x'' = [''1'', [], ''x'']"
    by simp
  from p s
    get_gpus_list [of "[''2'', ''0'', ''2'']"
      "\<lparr>CPU_ONLY = False, USE_CUDA = True, USE_NCCL = True, USE_GREENTEA = False\<rparr>"
      4 "[]" "''1,,x''"]
  show ?thesis by simp
qed

section \<open>Properties of the train command\<close>

lemma optimize_never_solves:
  "length gpus > 1 \<Longrightarrow> Solve \<notin> set (fst (optimize b w f gpus))"
  by (simp add: optimize_def Let_def)

lemma optimize_no_nccl_fatal:
  "length gpus > 1 \<Longrightarrow> USE_CUDA b \<Longrightarrow> \<not> USE_NCCL b \<Longrightarrow>
     optimize b w f gpus =
       ([Log INFO ''Starting Optimization''],
        Inl (LOG_FATAL ''Multi-GPU execution not available - rebuild with USE_NCCL''))"
  by (simp add: optimize_def Let_def)

text \<open>
  C3. The \<^verbatim>\<open>LOG(FATAL)\<close> for a missing \<^verbatim>\<open>USE_NCCL\<close> stands inside \<^verbatim>\<open>#ifdef USE_CUDA\<close>.
  In a build without \<^verbatim>\<open>USE_CUDA\<close> (an OpenCL build), which has no collective
  communication either, the branch for more than one device is empty: with
  \<^verbatim>\<open>-gpu 0,1\<close> the command creates the solver, runs neither \<^verbatim>\<open>Solve\<close> nor anything
  else, logs \<^verbatim>\<open>Optimization Done.\<close> and returns 0. It does not end fatally.
\<close>

theorem train_two_devices_without_cuda:
  "train \<lparr>CPU_ONLY = False, USE_CUDA = False, USE_NCCL = False, USE_GREENTEA = True\<rparr>
     \<lparr>solver_file = Some \<lparr>solver_mode = None, device_id = None, train_state_level = 0,
                           train_state_stage = []\<rparr>,
      device_count = 2, test_nets_size = 0, backend_OpenCL = True\<rparr>
     (default_flags\<lparr>FLAGS_solver := ''solver.prototxt'', FLAGS_gpu := ''0,1''\<rparr>)
   = ([SetDevices [0, 1], Log INFO ''Using GPUs 0, 1'', SetDevice 0, set_mode GPU,
       set_solver_count 2, SignalHandler STOP SNAPSHOT,
       CreateSolver \<lparr>solver_mode = None, device_id = Some 0, train_state_level = 0,
                     train_state_stage = [[]]\<rparr>,
       SetActionFunction, Log INFO ''Starting Optimization'', Log INFO ''Optimization Done.'',
       TeardownDevice 0],
      Inr 0)"
  by (simp add: train_def default_flags_def get_stages_from_flags_def get_gpus_def
      lexical_cast_int_def digit_value_def construct_def GetRequestedAction_def optimize_def
      string_of_int_def string_of_nat.simps digit_char_def Let_def)

theorem train_two_devices_without_cuda_witness:
  "snd (train \<lparr>CPU_ONLY = False, USE_CUDA = False, USE_NCCL = False, USE_GREENTEA = True\<rparr>
     \<lparr>solver_file = Some \<lparr>solver_mode = None, device_id = None, train_state_level = 0,
                           train_state_stage = []\<rparr>,
      device_count = 2, test_nets_size = 0, backend_OpenCL = True\<rparr>
     (default_flags\<lparr>FLAGS_solver := ''solver.prototxt'', FLAGS_gpu := ''0,1''\<rparr>)) = Inr 0
   \<and> Solve \<notin> set (fst (train
     \<lparr>CPU_ONLY = False, USE_CUDA = False, USE_NCCL = False, USE_GREENTEA = True\<rparr>
     \<lparr>solver_file = Some \<lparr>solver_mode = None, device_id = None, train_state_level = 0,
                           train_state_stage = []\<rparr>,
      device_count = 2, test_nets_size = 0, backend_OpenCL = True\<rparr>
     (default_flags\<lparr>FLAGS_solver := ''solver.prototxt'', FLAGS_gpu := ''0,1''\<rparr>)))"
  unfolding train_two_devices_without_cuda by simp

text \<open>
  C7. With both a snapshot and a list of weights, \<^verbatim>\<open>train\<close> ends at one of its two
  \<^verbatim>\<open>CHECK\<close>s (the first one when the solver flag is empty as well), having made no
  call at all: no solver is created, nothing is restored, no weights are copied.
\<close>

theorem train_snapshot_and_weights_rejected:
  "FLAGS_snapshot f \<noteq> [] \<Longrightarrow> FLAGS_weights f \<noteq> [] \<Longrightarrow>
     train b w f = ([], Inl (CHECK_failed ''Need a solver definition to train.'')) \<or>
     train b w f = ([], Inl (CHECK_failed
        ''Give a snapshot to resume training or weights to finetune but not both.''))"
  by (simp add: train_def)

theorem train_snapshot_and_weights_rejected_witness:
  "train \<lparr>CPU_ONLY = False, USE_CUDA = True, USE_NCCL = True, USE_GREENTEA = False\<rparr>
     \<lparr>solver_file = Some \<lparr>solver_mode = None, device_id = None, train_state_level = 0,
                           train_state_stage = []\<rparr>,
      device_count = 1, test_nets_size = 1, backend_OpenCL = False\<rparr>
     (default_flags\<lparr>FLAGS_solver := ''solver.prototxt'', FLAGS_snapshot := ''it.solverstate'',
                    FLAGS_weights := ''net.caffemodel''\<rparr>)
   = ([], Inl (CHECK_failed
        ''Give a snapshot to resume training or weights to finetune but not both.''))"
  using train_snapshot_and_weights_rejected
    [of "default_flags\<lparr>FLAGS_solver := ''solver.prototxt'', FLAGS_snapshot := ''it.solverstate'',
                    FLAGS_weights := ''net.caffemodel''\<rparr>"
        "\<lparr>CPU_ONLY = False, USE_CUDA = True, USE_NCCL = True, USE_GREENTEA = False\<rparr>"
        "\<lparr>solver_file = Some \<lparr>solver_mode = None, device_id = None, train_state_level = 0,
                           train_state_stage = []\<rparr>,
      device_count = 1, test_nets_size = 1, backend_OpenCL = False\<rparr>"]
  by (simp add: default_flags_def train_def)

section \<open>Properties of the floating point model\<close>

lemma bitlen_powi_bounds:
  assumes "0 < a"
  shows "(2::rat) powi (bitlen a - 1) \<le> of_int a" and "of_int a < (2::rat) powi (bitlen a)"
proof -
  from bitlen_bounds [OF assms]
  have lo: "2 ^ nat (bitlen a - 1) \<le> a" and hi: "a < 2 ^ nat (bitlen a)" by simp_all
  from hi assms have pos: "1 \<le> bitlen a"
    by (cases "bitlen a \<le> 0") auto
  from lo have "(of_int (2 ^ nat (bitlen a - 1)) :: rat) \<le> of_int a"
    by (simp only: of_int_le_iff)
  then show "(2::rat) powi (bitlen a - 1) \<le> of_int a"
    using pos by (simp add: power_int_def)
  from hi have "(of_int a :: rat) < of_int (2 ^ nat (bitlen a))"
    by (simp only: of_int_less_iff)
  then show "of_int a < (2::rat) powi (bitlen a)"
    using pos by (simp add: power_int_def)
qed

lemma binade_bounds:
  assumes "0 < x"
  shows "2 powi (binade x) \<le> x \<and> x < 2 powi (binade x + 1)"
proof -
  obtain a b where q: "quotient_of x = (a, b)" by (cases "quotient_of x")
  then have b: "0 < b" and x: "x = of_int a / of_int b"
    by (simp_all add: quotient_of_denom_pos quotient_of_div)
  from assms x b have a: "0 < a"
    by (simp add: zero_less_divide_iff)
  let ?k = "bitlen a - bitlen b"
  have bpos: "(0::rat) < of_int b" using b by simp
  have "x < 2 powi (bitlen a) / 2 powi (bitlen b - 1)"
  proof -
    have "x < 2 powi (bitlen a) / of_int b"
      unfolding x using bitlen_powi_bounds(2) [OF a] bpos by (simp add: divide_strict_right_mono)
    also have "\<dots> \<le> 2 powi (bitlen a) / 2 powi (bitlen b - 1)"
      using bitlen_powi_bounds(1) [OF b] by (simp add: frac_le)
    finally show ?thesis .
  qed
  moreover have "(2::rat) powi (?k + 1) = 2 powi (bitlen a) / 2 powi (bitlen b - 1)"
    using power_int_diff [of "2::rat" "bitlen a" "bitlen b - 1"] by (simp add: algebra_simps)
  ultimately have hi: "x < 2 powi (?k + 1)"
    by simp
  have "2 powi (bitlen a - 1) / 2 powi (bitlen b) < x"
  proof -
    have "(2::rat) powi (bitlen a - 1) / 2 powi (bitlen b) < 2 powi (bitlen a - 1) / of_int b"
      using bitlen_powi_bounds(2) [OF b] bpos by (simp add: divide_strict_left_mono)
    also have "\<dots> \<le> x"
      unfolding x using bitlen_powi_bounds(1) [OF a] bpos by (simp add: divide_right_mono)
    finally show ?thesis .
  qed
  moreover have "(2::rat) powi (?k - 1) = 2 powi (bitlen a - 1) / 2 powi (bitlen b)"
    using power_int_diff [of "2::rat" "bitlen a - 1" "bitlen b"] by (simp add: algebra_simps)
  ultimately have lo: "2 powi (?k - 1) < x"
    by simp
  show ?thesis
  proof (cases "2 powi ?k \<le> x")
    case True
    then have "binade x = ?k" by (simp add: binade_def q)
    with True hi show ?thesis by simp
  next
    case False
    then have "binade x = ?k - 1" by (simp add: binade_def q)
    with False lo show ?thesis by simp
  qed
qed

lemma binade_eqI:
  assumes "2 powi e \<le> x" and "x < 2 powi (e + 1)"
  shows "binade x = e"
proof -
  have pos: "0 < x"
    using assms(1) zero_less_power_int [of "2::rat" e] by linarith
  from binade_bounds [OF pos]
  have b1: "2 powi (binade x) \<le> x" and b2: "x < 2 powi (binade x + 1)" by simp_all
  have "(2::rat) powi e < 2 powi (binade x + 1)" using assms(1) b2 by linarith
  then have "e < binade x + 1"
    by (metis power_int_increasing not_less one_le_numeral)
  moreover have "(2::rat) powi (binade x) < 2 powi (e + 1)" using assms(2) b1 by linarith
  then have "binade x < e + 1"
    by (metis power_int_increasing not_less one_le_numeral)
  ultimately show ?thesis by simp
qed

lemma round_half_even_of_int: "round_half_even (of_int m) = m"
  by (simp add: round_half_even_def)

text \<open>A value with a significand of at most \<open>p\<close> bits and an exponent in range is kept.\<close>

lemma fp_round_exact:
  assumes x: "x = of_int m * 2 powi k" and m: "\<bar>m\<bar> < 2 ^ p" and k: "emin - int p + 1 \<le> k"
  shows "fp_round p emin x = x"
proof (cases "m = 0")
  case True
  with x show ?thesis by (simp add: fp_round_def)
next
  case False
  have p2: "(0::rat) < 2 powi j" for j by simp
  from False x have x0: "x \<noteq> 0" by simp
  then have ax: "0 < \<bar>x\<bar>" by simp
  have "\<bar>x\<bar> = of_int \<bar>m\<bar> * 2 powi k"
    by (simp add: x abs_mult)
  also have "\<dots> < of_int (2 ^ p) * 2 powi k"
    using m p2 [of k] by (simp only: mult_less_cancel_right_pos of_int_less_iff)
  also have "\<dots> = 2 powi (int p + k)"
    by (simp add: power_int_add)
  finally have "\<bar>x\<bar> < 2 powi (int p + k)" .
  with binade_bounds [OF ax] have "(2::rat) powi (binade \<bar>x\<bar>) < 2 powi (int p + k)"
    by linarith
  then have "binade \<bar>x\<bar> < int p + k"
    by (metis power_int_increasing not_less one_le_numeral)
  with k have s: "max (binade \<bar>x\<bar>) emin - int p + 1 \<le> k"
    by simp
  define s where "s = max (binade \<bar>x\<bar>) emin - int p + 1"
  have "x / 2 powi s = of_int m * 2 powi (k - s)"
    by (simp add: x power_int_diff)
  also have "\<dots> = of_int (m * 2 ^ nat (k - s))"
    using s by (simp add: s_def power_int_def)
  finally have q: "x / 2 powi s = of_int (m * 2 ^ nat (k - s))" .
  have "fp_round p emin x = of_int (round_half_even (x / 2 powi s)) * 2 powi s"
    using x0 by (simp add: fp_round_def Let_def s_def)
  also have "\<dots> = x / 2 powi s * 2 powi s"
    unfolding q round_half_even_of_int ..
  also have "\<dots> = x"
    by simp
  finally show ?thesis .
qed

lemma f32_round_int:
  assumes "\<bar>n\<bar> \<le> 2 ^ 24"
  shows "f32_round (of_int n) = of_int n"
proof (cases "\<bar>n\<bar> = 2 ^ 24")
  case False
  with assms have "\<bar>n\<bar> < 2 ^ 24" by simp
  then show ?thesis
    unfolding f32_round_def
    by (intro fp_round_exact [where m = n and k = 0]) simp_all
next
  case True
  then have n: "n = 2 ^ 24 \<or> n = - (2 ^ 24)" by linarith
  show ?thesis
    unfolding f32_round_def
    by (rule fp_round_exact [where m = "n div 2" and k = 1]) (use n in auto)
qed

lemma f32_round_scaled:
  assumes "\<bar>n\<bar> \<le> 2 ^ 24" "0 \<le> j" "j \<le> 100"
  shows "f32_round (of_int n * 2 powi j) = of_int n * 2 powi j"
proof (cases "\<bar>n\<bar> = 2 ^ 24")
  case False
  with assms have "\<bar>n\<bar> < 2 ^ 24" by simp
  then show ?thesis
    unfolding f32_round_def using assms
    by (intro fp_round_exact [where m = n and k = j]) simp_all
next
  case True
  then have n: "n = 2 ^ 24 \<or> n = - (2 ^ 24)" by linarith
  have "of_int n * 2 powi j = of_int (n div 2) * (2::rat) powi (j + 1)"
    using n by (auto simp: power_int_add)
  then show ?thesis
    unfolding f32_round_def using assms n
    by (intro fp_round_exact [where m = "n div 2" and k = "j + 1"]) auto
qed

lemma fp_round_binade:
  assumes "2 powi e \<le> \<bar>x\<bar>" and "\<bar>x\<bar> < 2 powi (e + 1)" and "emin \<le> e"
  shows "fp_round p emin x
           = of_int (round_half_even (x / 2 powi (e - int p + 1))) * 2 powi (e - int p + 1)"
proof -
  have "0 < \<bar>x\<bar>"
    using assms(1) zero_less_power_int [of "2::rat" e] by linarith
  then have "x \<noteq> 0" by simp
  moreover have "binade \<bar>x\<bar> = e"
    using assms(1,2) by (rule binade_eqI)
  ultimately show ?thesis
    using assms(3) by (simp add: fp_round_def Let_def max_def)
qed

lemma floor_rat_numeral_div:
  "\<lfloor>numeral a / numeral b :: rat\<rfloor> = numeral a div numeral b"
  by (metis floor_divide_of_int_eq of_int_numeral)

lemmas round_eval = round_half_even_def Let_def floor_rat_numeral_div

text \<open>
  Beyond \<open>2 ^ 24\<close> times the summand a binary32 sum of equal summands stays where it is:
  the exact sum is halfway between two binary32 values and the tie goes to the even one.
\<close>

lemma f32_add_stuck_1: "f32_add 16777216 1 = 16777216"
  unfolding f32_add_def f32_round_def
  by (subst fp_round_binade [where e = 24]) (simp_all add: round_eval)

lemma f32_add_stuck_2: "f32_add 33554432 2 = 33554432"
  unfolding f32_add_def f32_round_def
  by (subst fp_round_binade [where e = 25]) (simp_all add: round_eval)

lemma f32_add_stuck_4: "f32_add 67108864 4 = 67108864"
  unfolding f32_add_def f32_round_def
  by (subst fp_round_binade [where e = 26]) (simp_all add: round_eval)

lemma f32_of_int_16777218: "f32_of_int 16777218 = 16777218"
  using fp_round_exact [of 16777218 8388609 1 24 "- 126"]
  by (simp add: f32_of_int_def f32_round_def)

lemma f32_div_stuck_1: "f32_div 16777216 16777218 = 8388607 / 8388608"
  unfolding f32_div_def f32_round_def
  by (subst fp_round_binade [where e = "- 1"]) (simp_all add: round_eval)

lemma f32_div_stuck_2: "f32_div 33554432 16777218 = 8388607 / 4194304"
  unfolding f32_div_def f32_round_def
  by (subst fp_round_binade [where e = 0]) (simp_all add: round_eval)

lemma f32_div_stuck_4: "f32_div 67108864 16777218 = 8388607 / 2097152"
  unfolding f32_div_def f32_round_def
  by (subst fp_round_binade [where e = 1]) (simp_all add: round_eval)

lemma f32_round_four_fifths: "f32_round (4 / 5) = 13421773 / 16777216"
  unfolding f32_round_def
  by (subst fp_round_binade [where e = "- 1"]) (simp_all add: round_eval)

lemma f32_round_nine_tenths: "f32_round (9 / 10) = 7549747 / 8388608"
  unfolding f32_round_def
  by (subst fp_round_binade [where e = "- 1"]) (simp_all add: round_eval)

section \<open>Properties of the classification evaluation\<close>

lemma length_add_at [simp]: "length (add_at idx xs v) = length v"
  by (induction xs arbitrary: idx v) simp_all

lemma add_at_append: "add_at idx (xs @ ys) v = add_at (idx + length xs) ys (add_at idx xs v)"
  by (induction xs arbitrary: idx v) simp_all

lemma blob_loop_first:
  "blob_loop 0 j b idx s =
     Inr (idx + length b,
          s\<lparr>test_score := test_score s @ b,
            test_score_output_id := test_score_output_id s @ replicate (length b) j\<rparr>)"
proof (induction b arbitrary: idx s)
  case Nil
  then show ?case by simp
next
  case (Cons x b)
  show ?case
    by (simp add: add_score_def Cons.IH replicate_app_Cons_same)
qed

lemma result_loop_first:
  "\<exists>ids. result_loop 0 j bs idx s =
     Inr (idx + length (concat bs),
          s\<lparr>test_score := test_score s @ concat bs,
            test_score_output_id := test_score_output_id s @ ids\<rparr>)
     \<and> length ids = length (concat bs)"
proof (induction bs arbitrary: j idx s)
  case Nil
  then show ?case by simp
next
  case (Cons b bs)
  let ?s = "s\<lparr>test_score := test_score s @ b,
            test_score_output_id := test_score_output_id s @ replicate (length b) j\<rparr>"
  from Cons.IH [of "Suc j" "idx + length b" ?s] obtain ids where
    "result_loop 0 (Suc j) bs (idx + length b) ?s =
       Inr (idx + length b + length (concat bs),
          ?s\<lparr>test_score := test_score ?s @ concat bs,
            test_score_output_id := test_score_output_id ?s @ ids\<rparr>)"
    and "length ids = length (concat bs)" by blast
  then show ?case
    by (intro exI [of _ "replicate (length b) j @ ids"]) (simp add: blob_loop_first)
qed

lemma blob_loop_later:
  "0 < i \<Longrightarrow> idx + length b \<le> length (test_score s) \<Longrightarrow>
     blob_loop i j b idx s = Inr (idx + length b, s\<lparr>test_score := add_at idx b (test_score s)\<rparr>)"
proof (induction b arbitrary: idx s)
  case Nil
  then show ?case by simp
next
  case (Cons x b)
  then show ?case
    by (simp add: add_score_def)
qed

lemma result_loop_later:
  "0 < i \<Longrightarrow> idx + length (concat bs) \<le> length (test_score s) \<Longrightarrow>
     result_loop i j bs idx s =
       Inr (idx + length (concat bs), s\<lparr>test_score := add_at idx (concat bs) (test_score s)\<rparr>)"
proof (induction bs arbitrary: j idx s)
  case Nil
  then show ?case by simp
next
  case (Cons b bs)
  then show ?case
    by (simp add: blob_loop_later add_at_append add.assoc)
qed

lemma iteration_first:
  "\<exists>ids. iteration forward 0 s =
     Inr (s\<lparr>loss := f32_add (loss s) (fst (forward 0)),
            test_score := test_score s @ concat (snd (forward 0)),
            test_score_output_id := test_score_output_id s @ ids\<rparr>)
     \<and> length ids = output_count (forward 0)"
proof -
  let ?s = "s\<lparr>loss := f32_add (loss s) (fst (forward 0))\<rparr>"
  from result_loop_first [of 0 "snd (forward 0)" 0 ?s] obtain ids where
    "result_loop 0 0 (snd (forward 0)) 0 ?s =
       Inr (0 + length (concat (snd (forward 0))),
          ?s\<lparr>test_score := test_score ?s @ concat (snd (forward 0)),
            test_score_output_id := test_score_output_id ?s @ ids\<rparr>)"
    and "length ids = length (concat (snd (forward 0)))" by blast
  then show ?thesis
    by (intro exI [of _ ids]) (simp add: iteration_def output_count_def)
qed

lemma iteration_later:
  "0 < i \<Longrightarrow> output_count (forward i) \<le> length (test_score s) \<Longrightarrow>
     iteration forward i s =
       Inr (s\<lparr>loss := f32_add (loss s) (fst (forward i)),
              test_score := add_at 0 (concat (snd (forward i))) (test_score s)\<rparr>)"
  by (simp add: iteration_def output_count_def result_loop_later)

lemma iterations_loop_Suc:
  "iterations_loop forward (Suc n) =
     (case iterations_loop forward n of Inl e \<Rightarrow> Inl e | Inr s \<Rightarrow> iteration forward n s)"
  by (simp add: iterations_loop_def)

lemma iterations_loop_0: "iterations_loop forward 0 = Inr empty_scores"
  by (simp add: iterations_loop_def)

text \<open>
  The loop does not compare the number of output numbers of a later iteration with
  that of iteration 0: a later iteration with more numbers writes beyond the vector,
  one with fewer leaves the last sums as they were.
\<close>

lemma larger_later_iteration_out_of_range:
  "iterations_loop (\<lambda>i. if i = 0 then (1, [[2]]) else (1, [[2, 4]])) 2 = Inl index_out_of_range"
proof -
  have "iterations_loop (\<lambda>i. if i = 0 then (1, [[2]]) else (1, [[2, 4]])) (Suc (Suc 0))
          = Inl index_out_of_range"
    by (simp add: iterations_loop_Suc iterations_loop_0 iteration_def add_score_def
        empty_scores_def)
  then show ?thesis
    by (simp add: numeral_2_eq_2)
qed

lemma smaller_later_iteration_accepted:
  "\<exists>s. iterations_loop (\<lambda>i. if i = 0 then (1, [[2, 4]]) else (1, [[2]])) 2 = Inr s
       \<and> test_score s = [f32_add 2 2, 4]"
proof -
  have "\<exists>s. iterations_loop (\<lambda>i. if i = 0 then (1, [[2, 4]]) else (1, [[2]])) (Suc (Suc 0))
            = Inr s
       \<and> test_score s = [f32_add 2 2, 4]"
    by (simp add: iterations_loop_Suc iterations_loop_0 iteration_def add_score_def
        empty_scores_def)
  then show ?thesis
    by (simp add: numeral_2_eq_2)
qed

text \<open>
  C9. When every iteration after iteration 0 gives as many output numbers as iteration 0,
  the loop over any number of iterations ends without \<open>index_out_of_range\<close>: every
  \<^verbatim>\<open>test_score[idx] += score\<close> was below the size of the vector, which is from iteration
  0 on the number of output numbers of iteration 0.
\<close>

theorem classification_updates_in_bounds:
  assumes "\<forall>i. 0 < i \<and> i < n \<longrightarrow> output_count (forward i) = output_count (forward 0)"
  shows "\<exists>s. iterations_loop forward n = Inr s \<and>
           (0 < n \<longrightarrow> length (test_score s) = output_count (forward 0))"
  using assms
proof (induction n)
  case 0
  then show ?case by (simp add: iterations_loop_0)
next
  case (Suc n)
  then obtain s where s: "iterations_loop forward n = Inr s"
    and len: "0 < n \<longrightarrow> length (test_score s) = output_count (forward 0)"
    by auto
  show ?case
  proof (cases "n = 0")
    case True
    with s have "s = empty_scores" by (simp add: iterations_loop_0)
    with iteration_first [of forward s] True s show ?thesis
      by (auto simp: iterations_loop_Suc empty_scores_def output_count_def)
  next
    case False
    with Suc.prems have "output_count (forward n) = output_count (forward 0)" by simp
    with len False have "output_count (forward n) \<le> length (test_score s)" by simp
    with False iteration_later [of n forward s] s len show ?thesis
      by (simp add: iterations_loop_Suc)
  qed
qed

theorem classification_updates_in_bounds_witness:
  "\<exists>s. iterations_loop example_net 3 = Inr s \<and> length (test_score s) = 2"
  using classification_updates_in_bounds [of 3 example_net]
  by (simp add: output_count_def example_net_def numeral_2_eq_2)

lemma f32_add_nat_1:
  assumes "Suc n \<le> 2 ^ 24"
  shows "f32_add (of_nat n) 1 = of_nat (Suc n)"
proof -
  have "f32_round (of_int (int (Suc n))) = of_int (int (Suc n))"
    using assms by (intro f32_round_int) simp
  then show ?thesis
    by (simp add: f32_add_def add.commute)
qed

lemma f32_add_nat_scaled:
  assumes "Suc n \<le> 2 ^ 24" and "0 \<le> j" and "j \<le> 100"
  shows "f32_add (of_nat n * 2 powi j) (2 powi j) = of_nat (Suc n) * 2 powi j"
proof -
  have "f32_round (of_int (int (Suc n)) * 2 powi j) = of_int (int (Suc n)) * 2 powi j"
    using assms by (intro f32_round_scaled) simp_all
  then show ?thesis
    by (simp add: f32_add_def algebra_simps)
qed

lemma f32_add_nat_2:
  "Suc n \<le> 2 ^ 24 \<Longrightarrow> f32_add (2 * of_nat n) 2 = 2 * of_nat (Suc n)"
  using f32_add_nat_scaled [of n 1] by (simp add: mult.commute)

lemma f32_add_nat_4:
  "Suc n \<le> 2 ^ 24 \<Longrightarrow> f32_add (4 * of_nat n) 4 = 4 * of_nat (Suc n)"
  using f32_add_nat_scaled [of n 2] by (simp add: mult.commute)

lemma f32_add_0_1: "f32_add 0 1 = 1"
  using f32_add_nat_1 [of 0] by simp

lemma sums_exact:
  assumes "0 < n" and "n \<le> 2 ^ 24"
    and "\<forall>i<n. fst (forward i) = 1 \<and> concat (snd (forward i)) = [2, 4]"
  shows "\<exists>ids. iterations_loop forward n =
           Inr \<lparr>test_score_output_id = ids,
                test_score = [2 * of_nat n, 4 * of_nat n], loss = of_nat n\<rparr>
         \<and> length ids = 2"
  using assms
proof (induction n)
  case 0
  then show ?case by simp
next
  case (Suc n)
  show ?case
  proof (cases "n = 0")
    case True
    from Suc.prems have f0: "fst (forward 0) = 1" "concat (snd (forward 0)) = [2, 4]"
      by simp_all
    from iteration_first [of forward empty_scores] obtain ids where
      "iteration forward 0 empty_scores =
         Inr (empty_scores\<lparr>loss := f32_add (loss empty_scores) (fst (forward 0)),
            test_score := test_score empty_scores @ concat (snd (forward 0)),
            test_score_output_id := test_score_output_id empty_scores @ ids\<rparr>)"
      and "length ids = output_count (forward 0)" by blast
    with f0 True show ?thesis
      by (intro exI [of _ ids])
         (simp add: iterations_loop_Suc iterations_loop_0 empty_scores_def output_count_def
            f32_add_0_1)
  next
    case False
    with Suc obtain ids where
      s: "iterations_loop forward n =
           Inr \<lparr>test_score_output_id = ids,
                test_score = [2 * of_nat n, 4 * of_nat n], loss = of_nat n\<rparr>"
      and ids: "length ids = 2" by auto
    from Suc.prems have fn: "fst (forward n) = 1" "concat (snd (forward n)) = [2, 4]"
      by simp_all
    from Suc.prems have le: "Suc n \<le> 2 ^ 24" by simp
    let ?s = "\<lparr>test_score_output_id = ids,
                test_score = [2 * of_nat n, 4 * of_nat n], loss = of_nat n\<rparr>"
    have "iteration forward n ?s =
       Inr (?s\<lparr>loss := f32_add (loss ?s) (fst (forward n)),
              test_score := add_at 0 (concat (snd (forward n))) (test_score ?s)\<rparr>)"
      using False by (intro iteration_later) (simp_all add: output_count_def fn)
    then show ?thesis
      using s ids fn f32_add_nat_1 [OF le] f32_add_nat_2 [OF le] f32_add_nat_4 [OF le]
      by (simp add: iterations_loop_Suc)
  qed
qed


lemma f32_round_small: "f32_round 1 = 1" "f32_round 2 = 2" "f32_round 4 = 4"
  using f32_round_int [of 1] f32_round_int [of 2] f32_round_int [of 4] by simp_all

text \<open>
  C4, as amended. For a number of iterations from 1 to \<open>2 ^ 24\<close>, when every forward
  pass gives the loss 1.0 and the output numbers 2.0 and 4.0 (in whatever blobs), the
  reported mean loss is 1.0 and the reported means are 2.0 and 4.0.
\<close>

theorem classification_means_exact:
  assumes "1 \<le> FLAGS_iterations f" and "FLAGS_iterations f \<le> 2 ^ 24"
    and "\<forall>i < nat (FLAGS_iterations f).
           fst (forward i) = 1 \<and> concat (snd (forward i)) = [2, 4]"
  shows "\<exists>r. test_classification loss_weight f forward = Inr r \<and> mean_loss r = 1 \<and>
           map (\<lambda>(j, mean_score, weighted). mean_score) (mean_scores r) = [2, 4]"
proof -
  let ?N = "FLAGS_iterations f"
  have n: "0 < nat ?N" "nat ?N \<le> 2 ^ 24"
    using assms(1,2) by (simp_all add: nat_le_iff)
  from sums_exact [OF n assms(3)] obtain ids where
    s: "iterations_loop forward (nat ?N) =
           Inr \<lparr>test_score_output_id = ids,
                test_score = [2 * of_nat (nat ?N), 4 * of_nat (nat ?N)], loss = of_nat (nat ?N)\<rparr>"
    and ids: "length ids = 2" by blast
  from ids obtain a b where ab: "ids = [a, b]"
    by (cases ids; cases "tl ids") auto
  have N: "f32_of_int ?N = of_int ?N"
    unfolding f32_of_int_def using assms(1,2) by (intro f32_round_int) simp
  have nat_N: "(of_nat (nat ?N) :: rat) = of_int ?N"
    using assms(1) by simp
  have nz: "(of_int ?N :: rat) \<noteq> 0"
    using assms(1) by simp
  show ?thesis
    using nz by (simp add: test_classification_def s ab N nat_N f32_div_def f32_round_small)
qed

lemma example_net_simps [simp]:
  "fst (example_net i) = 1" "snd (example_net i) = [[2, 4]]"
  by (simp_all add: example_net_def)

lemma example_sums:
  "0 < n \<Longrightarrow> n \<le> 2 ^ 24 \<Longrightarrow>
     iterations_loop example_net n =
       Inr \<lparr>test_score_output_id = [0, 0],
            test_score = [2 * of_nat n, 4 * of_nat n], loss = of_nat n\<rparr>"
proof (induction n)
  case 0
  then show ?case by simp
next
  case (Suc n)
  show ?case
  proof (cases "n = 0")
    case True
    then show ?thesis
      by (simp add: iterations_loop_Suc iterations_loop_0 iteration_def
          add_score_def empty_scores_def f32_add_0_1)
  next
    case False
    from Suc.prems have le: "Suc n \<le> 2 ^ 24" by simp
    from False Suc have "iterations_loop example_net n =
       Inr \<lparr>test_score_output_id = [0, 0],
            test_score = [2 * of_nat n, 4 * of_nat n], loss = of_nat n\<rparr>" by simp
    then show ?thesis
      using False f32_add_nat_1 [OF le] f32_add_nat_2 [OF le] f32_add_nat_4 [OF le]
      by (simp add: iterations_loop_Suc iteration_def add_score_def)
  qed
qed

lemma example_sums_stuck:
  assumes "2 ^ 24 \<le> n"
  shows "iterations_loop example_net n =
       Inr \<lparr>test_score_output_id = [0, 0],
            test_score = [33554432, 67108864], loss = 16777216\<rparr>"
  using assms
proof (induction n rule: nat_induct_at_least)
  case base
  show ?case
    using example_sums [of "2 ^ 24"] by simp
next
  case (Suc n)
  then have "n \<noteq> 0" by auto
  with Suc.IH show ?case
    by (simp add: iterations_loop_Suc iteration_def add_score_def
        f32_add_stuck_1 f32_add_stuck_2 f32_add_stuck_4)
qed

text \<open>
  C4, as stated, fails: with 16777218 iterations the binary32 sums have stopped at
  \<open>2 ^ 24\<close>, \<open>2 ^ 25\<close> and \<open>2 ^ 26\<close>, and the reported means are below 1.0, 2.0 and 4.0.
\<close>

theorem classification_means_counterexample:
  "test_classification (\<lambda>j. 0) (default_flags\<lparr>FLAGS_iterations := 16777218\<rparr>) example_net =
     Inr \<lparr>mean_loss = 8388607 / 8388608,
          mean_scores = [(0, 8388607 / 4194304, None), (0, 8388607 / 2097152, None)]\<rparr>"
proof -
  have "iterations_loop example_net (nat 16777218) =
       Inr \<lparr>test_score_output_id = [0, 0],
            test_score = [33554432, 67108864], loss = 16777216\<rparr>"
    by (rule example_sums_stuck) simp
  then show ?thesis
    by (simp add: test_classification_def f32_of_int_16777218 f32_div_stuck_1 f32_div_stuck_2 f32_div_stuck_4)
qed

theorem classification_means_exact_witness:
  "\<exists>r. test_classification (\<lambda>j. 0) (default_flags\<lparr>FLAGS_iterations := 3\<rparr>) example_net = Inr r
       \<and> mean_loss r = 1
       \<and> map (\<lambda>(j, mean_score, weighted). mean_score) (mean_scores r) = [2, 4]"
  using classification_means_exact
    [of "default_flags\<lparr>FLAGS_iterations := 3\<rparr>" example_net "\<lambda>j. 0"]
  by simp

section \<open>Properties of the benchmark loop\<close>

lemma time_iteration_without_lt:
  "time_iteration False phase layers_size r t =
     t\<lparr>forward_time := f64_add (forward_time t) (forward_us r)\<rparr>"
  by (auto simp: time_iteration_def Let_def)

lemma time_loop_without_lt:
  "backward_time (time_loop False phase layers_size timers n) = 0
   \<and> backward_time_per_layer (time_loop False phase layers_size timers n)
       = replicate layers_size 0
   \<and> forward_time_per_layer (time_loop False phase layers_size timers n)
       = replicate layers_size 0"
proof (induction n)
  case 0
  then show ?case by (simp add: time_loop_def initial_timing_def)
next
  case (Suc n)
  have "time_loop False phase layers_size timers (Suc n)
          = time_iteration False phase layers_size (timers n)
              (time_loop False phase layers_size timers n)"
    by (simp add: time_loop_def)
  with Suc show ?case
    by (simp add: time_iteration_without_lt)
qed

lemma f64_div_zero: "f64_div 0 y = 0"
  by (simp add: f64_div_def f64_round_def fp_round_def)

text \<open>
  C1. Without \<^verbatim>\<open>FLAGS_lt\<close> the per-layer tables stay all zero, but so does
  \<^verbatim>\<open>backward_time\<close>: its only addition stands under \<^verbatim>\<open>if (FLAGS_lt)\<close>. With at least
  one iteration, whatever the phase, the layers and the timers, the average backward
  pass that \<^verbatim>\<open>time\<close> reports is 0.
\<close>

theorem time_without_lt_reports_no_backward_time:
  "1 \<le> FLAGS_iterations f \<Longrightarrow> \<not> FLAGS_lt f \<Longrightarrow>
     average_backward (time_benchmark f phase layers_size timers total_ms) = 0"
  by (simp add: time_benchmark_def Let_def time_loop_without_lt f64_div_zero)

theorem time_without_lt_reports_no_backward_time_witness:
  "average_backward
     (time_benchmark (default_flags\<lparr>FLAGS_iterations := 1\<rparr>) TRAIN 1
        (\<lambda>j. \<lparr>forward_us = 1500, layer_forward_us = (\<lambda>i. 1400),
               layer_backward_us = (\<lambda>i. 2900)\<rparr>) 5) = 0"
  using time_without_lt_reports_no_backward_time
    [of "default_flags\<lparr>FLAGS_iterations := 1\<rparr>" TRAIN 1
        "\<lambda>j. \<lparr>forward_us = 1500, layer_forward_us = (\<lambda>i. 1400),
               layer_backward_us = (\<lambda>i. 2900)\<rparr>" 5]
  by (simp add: default_flags_def)

section \<open>Properties of the detection evaluation\<close>

lemma map_of_assign: "map_of (assign k v m) = (map_of m)(k \<mapsto> v)"
  by (induction m) (auto simp: fun_upd_twist)

lemma map_of_modify:
  "map_of (modify k d change m) =
     (map_of m)(k \<mapsto> change (case map_of m k of None \<Rightarrow> d | Some v \<Rightarrow> v))"
  by (simp add: modify_def map_of_assign)

lemma entry_modify_modify:
  "entry (modify j [] (modify l [] change) m) j' l' =
     (if j' = j \<and> l' = l then Some (change (case entry m j l of None \<Rightarrow> [] | Some v \<Rightarrow> v))
      else entry m j' l')"
  by (auto simp: entry_def map_of_modify split: option.splits)

lemma entry_modify_count:
  "entry (modify j []
            (\<lambda>num_pos. case map_of num_pos l of
                None \<Rightarrow> assign l c num_pos
              | Some n \<Rightarrow> assign l (int32 (n + c)) num_pos) m) j' l' =
     (if j' = j \<and> l' = l
      then Some (case entry m j l of None \<Rightarrow> c | Some n \<Rightarrow> int32 (n + c))
      else entry m j' l')"
  by (auto simp: entry_def map_of_modify map_of_assign split: option.splits)

lemma static_cast_int_range:
  "- 2147483648 \<le> static_cast_int x \<and> static_cast_int x \<le> 2147483647"
  by (simp add: static_cast_int_def Let_def)

lemma int32_in_range: "- 2147483648 \<le> x \<Longrightarrow> x \<le> 2147483647 \<Longrightarrow> int32 x = x"
  by (simp add: int32_def)

lemma int32_add_left: "int32 (int32 a + b) = int32 (a + b)"
proof -
  have "(int32 a + b + 2147483648) mod 4294967296
          = ((a + 2147483648) mod 4294967296 + b) mod 4294967296"
    by (simp add: int32_def)
  also have "\<dots> = (a + 2147483648 + b) mod 4294967296"
    by (rule mod_add_left_eq)
  finally show ?thesis
    by (simp add: int32_def algebra_simps)
qed

lemma int32_static_cast_int: "int32 (static_cast_int x) = static_cast_int x"
  using static_cast_int_range [of x] by (simp add: int32_in_range)

lemma accumulate_blob_rows: "accumulate_blob j rows acc = accumulate_rows (map (Pair j) rows) acc"
  by (induction rows arbitrary: acc) (simp_all add: accumulate_rows_def)

lemma accumulate_rows_append: "accumulate_rows (xs @ ys) acc = accumulate_rows ys (accumulate_rows xs acc)"
  by (simp add: accumulate_rows_def)

lemma accumulate_result_rows:
  "accumulate_result j blobs acc = accumulate_rows (rows_of_result j blobs) acc"
  by (induction blobs arbitrary: j acc)
     (simp_all add: rows_of_result_def accumulate_rows_append accumulate_blob_rows, simp add: accumulate_rows_def)

lemma accumulate_iterations_rows:
  "accumulate_iterations forward n = accumulate_rows (encountered forward n) empty_accumulator"
proof -
  have "foldl (\<lambda>acc i. accumulate_result 0 (snd (forward i)) acc) acc is
        = accumulate_rows (concat (map (\<lambda>i. rows_of_result 0 (snd (forward i))) is)) acc" for acc "is"
    by (induction "is" arbitrary: acc) (simp_all add: accumulate_rows_append accumulate_result_rows, simp add: accumulate_rows_def)
  then show ?thesis
    by (simp add: accumulate_iterations_def encountered_def)
qed

lemma accumulate_row_true_pos:
  "entry (all_true_pos (accumulate_row j r acc)) j' l =
     (if j' = j \<and> \<not> sentinel r \<and> static_cast_int (col1 r) = l \<and> \<not> both_flags_zero r
      then Some (pairs_at (all_true_pos acc) j l @ [(col2 r, static_cast_int (col3 r))])
      else entry (all_true_pos acc) j' l)"
  by (auto simp: accumulate_row_def Let_def entry_modify_modify sentinel_def both_flags_zero_def
      pairs_at_def)

lemma accumulate_row_false_pos:
  "entry (all_false_pos (accumulate_row j r acc)) j' l =
     (if j' = j \<and> \<not> sentinel r \<and> static_cast_int (col1 r) = l \<and> \<not> both_flags_zero r
      then Some (pairs_at (all_false_pos acc) j l @ [(col2 r, static_cast_int (col4 r))])
      else entry (all_false_pos acc) j' l)"
  by (auto simp: accumulate_row_def Let_def entry_modify_modify sentinel_def both_flags_zero_def
      pairs_at_def)

lemma accumulate_row_num_pos:
  "entry (all_num_pos (accumulate_row j r acc)) j' l =
     (if j' = j \<and> sentinel r \<and> static_cast_int (col1 r) = l
      then Some (int32 ((case entry (all_num_pos acc) j l of None \<Rightarrow> 0 | Some n \<Rightarrow> n)
                        + static_cast_int (col2 r)))
      else entry (all_num_pos acc) j' l)"
  by (auto simp: accumulate_row_def Let_def entry_modify_count sentinel_def
      int32_static_cast_int split: option.splits)

lemma accumulate_rows_true_pos:
  "entry (all_true_pos (accumulate_rows xs acc)) j l =
     (if detection_rows xs j l = [] then entry (all_true_pos acc) j l
      else Some (pairs_at (all_true_pos acc) j l
                 @ map (\<lambda>r. (col2 r, static_cast_int (col3 r))) (detection_rows xs j l)))"
proof (induction xs arbitrary: acc)
  case Nil
  then show ?case by (simp add: accumulate_rows_def detection_rows_def)
next
  case (Cons x xs)
  obtain j' r where x: "x = (j', r)" by (cases x)
  have step: "accumulate_rows (x # xs) acc = accumulate_rows xs (accumulate_row j' r acc)"
    by (simp add: accumulate_rows_def x)
  show ?case
    unfolding step Cons.IH
    by (simp add: x detection_rows_def accumulate_row_true_pos pairs_at_def)
qed

lemma accumulate_rows_false_pos:
  "entry (all_false_pos (accumulate_rows xs acc)) j l =
     (if detection_rows xs j l = [] then entry (all_false_pos acc) j l
      else Some (pairs_at (all_false_pos acc) j l
                 @ map (\<lambda>r. (col2 r, static_cast_int (col4 r))) (detection_rows xs j l)))"
proof (induction xs arbitrary: acc)
  case Nil
  then show ?case by (simp add: accumulate_rows_def detection_rows_def)
next
  case (Cons x xs)
  obtain j' r where x: "x = (j', r)" by (cases x)
  have step: "accumulate_rows (x # xs) acc = accumulate_rows xs (accumulate_row j' r acc)"
    by (simp add: accumulate_rows_def x)
  show ?case
    unfolding step Cons.IH
    by (simp add: x detection_rows_def accumulate_row_false_pos pairs_at_def)
qed

lemma accumulate_rows_num_pos:
  "entry (all_num_pos (accumulate_rows xs acc)) j l =
     (if sentinel_rows xs j l = [] then entry (all_num_pos acc) j l
      else Some (int32 ((case entry (all_num_pos acc) j l of None \<Rightarrow> 0 | Some n \<Rightarrow> n)
                 + sum_list (map (\<lambda>r. static_cast_int (col2 r)) (sentinel_rows xs j l)))))"
proof (induction xs arbitrary: acc)
  case Nil
  then show ?case by (simp add: accumulate_rows_def sentinel_rows_def)
next
  case (Cons x xs)
  obtain j' r where x: "x = (j', r)" by (cases x)
  have step: "accumulate_rows (x # xs) acc = accumulate_rows xs (accumulate_row j' r acc)"
    by (simp add: accumulate_rows_def x)
  show ?case
    unfolding step Cons.IH
    by (simp add: x sentinel_rows_def accumulate_row_num_pos int32_add_left add.assoc)
qed

lemma entry_empty: "entry [] j l = None"
  by (simp add: entry_def)


lemma static_cast_int_of_int:
  "- 2147483648 \<le> n \<Longrightarrow> n \<le> 2147483647 \<Longrightarrow> static_cast_int (of_int n) = n"
  by (simp add: static_cast_int_def)

lemma static_cast_int_numerals:
  "static_cast_int 0 = 0" "static_cast_int 1 = 1" "static_cast_int (- 1) = - 1"
  "numeral k \<le> (2147483647 :: int) \<Longrightarrow> static_cast_int (numeral k) = numeral k"
  using static_cast_int_of_int [of 0] static_cast_int_of_int [of 1]
    static_cast_int_of_int [of "- 1"] static_cast_int_of_int [of "numeral k"]
  by simp_all

lemma static_cast_int_too_large: "static_cast_int 3000000000 = - 2147483648"
  by (simp add: static_cast_int_def)

lemma example_encountered:
  "encountered example_forward 2 =
     [(0, \<lparr>col0 = - 1, col1 = 5, col2 = 3, col3 = - 1, col4 = - 1\<rparr>),
      (0, \<lparr>col0 = 0, col1 = 5, col2 = 7549747 / 8388608, col3 = 1, col4 = 0\<rparr>),
      (0, \<lparr>col0 = 0, col1 = 5, col2 = 13421773 / 16777216, col3 = 0, col4 = 1\<rparr>),
      (0, \<lparr>col0 = 1, col1 = 5, col2 = 1 / 4, col3 = 0, col4 = 0\<rparr>),
      (0, \<lparr>col0 = - 1, col1 = 5, col2 = 2, col3 = - 1, col4 = - 1\<rparr>),
      (0, \<lparr>col0 = 2, col1 = 5, col2 = 1 / 2, col3 = 1, col4 = 0\<rparr>)]"
proof -
  have n: "[0..<2] = [0, Suc 0]"
    by (simp add: upt_rec)
  show ?thesis
    by (simp add: encountered_def n rows_of_result_def example_forward_def)
qed


text \<open>Two counts of 2147483520 for one label add up to \<open>-256\<close>, as on the machine.\<close>

lemma sentinel_counts_wrap_around:
  "entry (all_num_pos (accumulate_iterations overflow_forward 2)) 0 5 = Some (- 256)"
proof -
  have n: "[0..<2] = [0, Suc 0]"
    by (simp add: upt_rec)
  have "encountered overflow_forward 2 =
     [(0, \<lparr>col0 = - 1, col1 = 5, col2 = 2147483520, col3 = - 1, col4 = - 1\<rparr>),
      (0, \<lparr>col0 = - 1, col1 = 5, col2 = 2147483520, col3 = - 1, col4 = - 1\<rparr>)]"
    by (simp add: encountered_def n rows_of_result_def overflow_forward_def)
  then show ?thesis
    by (simp add: accumulate_iterations_rows accumulate_rows_num_pos empty_accumulator_def
        entry_empty sentinel_rows_def sentinel_def static_cast_int_numerals int32_def)
qed

text \<open>
  C10. After any number of iterations, for every output blob index and label the true
  positive and the false positive sequence have the same length and the same score at
  every position.
\<close>

theorem true_pos_false_pos_lockstep:
  "length (pairs_at (all_true_pos (accumulate_iterations forward n)) j label)
     = length (pairs_at (all_false_pos (accumulate_iterations forward n)) j label)
   \<and> (\<forall>i < length (pairs_at (all_true_pos (accumulate_iterations forward n)) j label).
        fst (pairs_at (all_true_pos (accumulate_iterations forward n)) j label ! i)
          = fst (pairs_at (all_false_pos (accumulate_iterations forward n)) j label ! i))"
proof -
  let ?rs = "detection_rows (encountered forward n) j label"
  have t: "pairs_at (all_true_pos (accumulate_iterations forward n)) j label
             = map (\<lambda>r. (col2 r, static_cast_int (col3 r))) ?rs"
    by (simp add: pairs_at_def accumulate_iterations_rows accumulate_rows_true_pos
        empty_accumulator_def entry_empty)
  have f: "pairs_at (all_false_pos (accumulate_iterations forward n)) j label
             = map (\<lambda>r. (col2 r, static_cast_int (col4 r))) ?rs"
    by (simp add: pairs_at_def accumulate_iterations_rows accumulate_rows_false_pos
        empty_accumulator_def entry_empty)
  show ?thesis
    unfolding t f by simp
qed

theorem true_pos_false_pos_lockstep_witness:
  "length (pairs_at (all_false_pos (accumulate_iterations example_forward 2)) 0 5) = 3
   \<and> map fst (pairs_at (all_false_pos (accumulate_iterations example_forward 2)) 0 5)
     = map fst (pairs_at (all_true_pos (accumulate_iterations example_forward 2)) 0 5)"
proof -
  have t: "pairs_at (all_true_pos (accumulate_iterations example_forward 2)) 0 5
     = [(7549747 / 8388608, 1), (13421773 / 16777216, 0), (1 / 2, 1)]"
    by (simp add: pairs_at_def accumulate_iterations_rows accumulate_rows_true_pos
        empty_accumulator_def entry_empty example_encountered detection_rows_def
        sentinel_def both_flags_zero_def static_cast_int_numerals)
  from true_pos_false_pos_lockstep [of example_forward 2 0 5] t
  show ?thesis
    by (simp add: list_eq_iff_nth_eq)
qed

lemma label_loop_eq:
  "label_loop ComputeAP ap true_pos false_pos entries (mAP, lg) =
     (foldl f32_add mAP
        (map (label_AP ComputeAP ap true_pos false_pos)
           (filter (has_records true_pos false_pos) entries)),
      lg @ concat (map (label_warning true_pos false_pos) entries))"
proof (induction entries arbitrary: mAP lg)
  case Nil
  then show ?case by simp
next
  case (Cons e entries)
  obtain label k where e: "e = (label, k)" by (cases e)
  show ?case
    unfolding e
    by (simp add: Cons.IH has_records_def label_warning_def label_AP_def split: option.splits)
qed


lemma mean_AP_eq:
  "mean_AP ComputeAP ap true_pos false_pos num_pos =
     (f32_div
        (foldl f32_add 0
           (map (label_AP ComputeAP ap true_pos false_pos)
              (filter (has_records true_pos false_pos) num_pos)))
        (f32_of_nat (length num_pos)),
      concat (map (label_warning true_pos false_pos) num_pos))"
  by (simp add: mean_AP_def label_loop_eq)

lemma report_loop_end: "\<not> i < n \<Longrightarrow> report_loop ComputeAP ap acc n i = ([], None)"
  by (subst report_loop.simps) simp

lemma report_loop_step:
  assumes "i < n" and "complete acc i"
  shows "fst (report_loop ComputeAP ap acc n i) =
           output_lines ComputeAP ap acc i @ fst (report_loop ComputeAP ap acc n (Suc i))"
proof -
  from assms(2) obtain tp fp np where
    m: "map_of (all_true_pos acc) i = Some tp" "map_of (all_false_pos acc) i = Some fp"
       "map_of (all_num_pos acc) i = Some np"
    by (auto simp: complete_def)
  show ?thesis
    using assms(1)
    by (subst report_loop.simps)
       (simp add: m mean_AP_eq output_lines_def table_def split: prod.splits)
qed

lemma report_loop_reaches:
  assumes "i \<le> k" and "k < n" and "\<forall>m. i \<le> m \<and> m \<le> k \<longrightarrow> complete acc m"
  shows "\<exists>rest. fst (report_loop ComputeAP ap acc n i) =
           concat (map (output_lines ComputeAP ap acc) [i..<Suc k]) @ rest"
  using assms(1,3)
proof (induction rule: inc_induct)
  case base
  then have "complete acc k" by simp
  from report_loop_step [OF assms(2) this] show ?case
    by simp
next
  case (step m)
  then have c: "complete acc m" and "m < n" using assms(2) by simp_all
  from step obtain rest where
    r: "fst (report_loop ComputeAP ap acc n (Suc m)) =
          concat (map (output_lines ComputeAP ap acc) [Suc m..<Suc k]) @ rest"
    by auto
  have "[m..<Suc k] = m # [Suc m..<Suc k]"
    using step.hyps by (simp add: upt_conv_Cons)
  with report_loop_step [OF \<open>m < n\<close> c] r show ?case
    by simp
qed

text \<open>
  C6, as amended. Let output index \<open>i\<close> be below the size of \<^verbatim>\<open>all_true_pos\<close> and let every
  index up to \<open>i\<close> have its entry in all three tables, so that the loop comes to \<open>i\<close>
  and finds its maps. Then \<^verbatim>\<open>test_detection\<close> logs, after the lines of the indices
  before \<open>i\<close>: one warning for every label of \<^verbatim>\<open>num_pos\<close> without a true positive (or
  false positive) sequence, and the mean, which is the sum of the average precisions of
  the other labels of \<^verbatim>\<open>num_pos\<close> divided by the number of all entries of \<^verbatim>\<open>num_pos\<close>.
\<close>

theorem reached_output_mean_AP:
  assumes "i < length (all_true_pos (accumulate_iterations forward (nat (FLAGS_iterations f))))"
    and "\<forall>k\<le>i. complete (accumulate_iterations forward (nat (FLAGS_iterations f))) k"
  shows "\<exists>rest. fst (test_detection ComputeAP f forward) =
           concat (map (output_lines ComputeAP (FLAGS_ap f)
                          (accumulate_iterations forward (nat (FLAGS_iterations f)))) [0..<i])
           @ output_lines ComputeAP (FLAGS_ap f)
               (accumulate_iterations forward (nat (FLAGS_iterations f))) i
           @ rest"
proof -
  let ?acc = "accumulate_iterations forward (nat (FLAGS_iterations f))"
  from assms(2) have "\<forall>m. 0 \<le> m \<and> m \<le> i \<longrightarrow> complete ?acc m" by simp
  from report_loop_reaches [OF _ assms(1) this, of ComputeAP "FLAGS_ap f"]
  obtain rest where
    "fst (report_loop ComputeAP (FLAGS_ap f) ?acc (length (all_true_pos ?acc)) 0) =
       concat (map (output_lines ComputeAP (FLAGS_ap f) ?acc) [0..<Suc i]) @ rest"
    by auto
  then show ?thesis
    by (intro exI [of _ rest]) (simp add: test_detection_def Let_def case_prod_beta)
qed

lemma missing_label_accumulated:
  "accumulate_iterations missing_label_forward 1 =
     \<lparr>all_true_pos = [(0, [(5, [(1 / 2, 1)])])], all_false_pos = [(0, [(5, [(1 / 2, 0)])])],
      all_num_pos = [(0, [(5, 4), (7, 2)])]\<rparr>"
  by (simp add: accumulate_iterations_def missing_label_forward_def accumulate_row_def
      empty_accumulator_def modify_def static_cast_int_numerals Let_def)

lemma f32_three_eighths: "f32_div (f32_add 0 (3 / 4)) (f32_of_nat 2) = 3 / 8"
proof -
  have a: "f32_round (3 / 4) = 3 / 4"
    using fp_round_exact [of "3 / 4" 3 "- 2" 24 "- 126"] by (simp add: f32_round_def)
  have b: "f32_round (3 / 8) = 3 / 8"
    using fp_round_exact [of "3 / 8" 3 "- 3" 24 "- 126"] by (simp add: f32_round_def)
  have c: "f32_round 2 = 2"
    using f32_round_int [of 2] by simp
  show ?thesis
    by (simp add: f32_add_def f32_div_def f32_of_nat_def a b c)
qed

theorem reached_output_mean_AP_witness:
  "\<exists>rest. fst (test_detection (\<lambda>tp n fp ap. 3 / 4) (default_flags\<lparr>FLAGS_iterations := 1\<rparr>)
                  missing_label_forward)
      = [Missing_true_pos 7, Test_net_output 0 (3 / 8)] @ rest"
proof -
  have n: "nat (FLAGS_iterations (default_flags\<lparr>FLAGS_iterations := 1\<rparr>)) = 1"
    by simp
  have two: "f32_of_nat (Suc (Suc 0)) = f32_of_nat 2"
    by (simp add: numeral_2_eq_2)
  from reached_output_mean_AP
    [of 0 missing_label_forward "default_flags\<lparr>FLAGS_iterations := 1\<rparr>" "\<lambda>tp n fp ap. 3 / 4"]
  show ?thesis
    unfolding n missing_label_accumulated
    by (simp add: complete_def output_lines_def table_def label_warning_def has_records_def
        label_AP_def two f32_three_eighths)
qed

text \<open>
  C6, as stated, fails for an output index that has no detection row with a flag set:
  its label has a positives count and no true positive sequence, but the loop runs over
  the indices below the size of \<^verbatim>\<open>all_true_pos\<close>, which is 0, and logs neither a warning
  nor a mean.
\<close>

theorem sentinel_only_output_no_warning:
  "test_detection (\<lambda>tp n fp ap. 3 / 4) (default_flags\<lparr>FLAGS_iterations := 1\<rparr>)
     sentinel_only_forward = ([], Inr 0)
   \<and> entry (all_num_pos (accumulate_iterations sentinel_only_forward 1)) 0 5 = Some 4
   \<and> entry (all_true_pos (accumulate_iterations sentinel_only_forward 1)) 0 5 = None"
proof -
  have acc: "accumulate_iterations sentinel_only_forward 1 =
     \<lparr>all_true_pos = [], all_false_pos = [], all_num_pos = [(0, [(5, 4)])]\<rparr>"
    by (simp add: accumulate_iterations_def sentinel_only_forward_def accumulate_row_def
        empty_accumulator_def modify_def static_cast_int_numerals Let_def)
  have n: "nat (FLAGS_iterations (default_flags\<lparr>FLAGS_iterations := 1\<rparr>)) = 1"
    by simp
  show ?thesis
    unfolding test_detection_def n acc
    by (simp add: report_loop_end entry_def)
qed

end
